theory Spec2Isabelle
  imports
    Main
    "HOL-Library.Sublist"
    "HOL-Library.Char_ord"
    "HOL-Library.List_Lexorder"
    "HOL-Library.AList"
    "HOL-Library.Multiset"
begin

section \<open>Python strings\<close>

text \<open>
  A Python \<open>str\<close> is modelled as a \<^typ>\<open>string\<close>; a \<^typ>\<open>char\<close> stands for a code
  point below 256. The functions of this section are the \<open>str\<close> methods that
  \<open>adabot/circuitpython_bundle.py\<close> calls, restricted to that range.
\<close>

definition is_space :: "char \<Rightarrow> bool" where
  \<comment> \<open>\<open>str.isspace\<close> on one character: U+0009..U+000D, U+001C..U+0020, U+0085, U+00A0.\<close>
  "is_space c \<longleftrightarrow>
     c = CHR 0x09 \<or> c = CHR 0x0A \<or> c = CHR 0x0B \<or> c = CHR 0x0C \<or> c = CHR 0x0D \<or>
     c = CHR 0x1C \<or> c = CHR 0x1D \<or> c = CHR 0x1E \<or> c = CHR 0x1F \<or> c = CHR 0x20 \<or>
     c = CHR 0x85 \<or> c = CHR 0xA0"

definition is_linebreak :: "char \<Rightarrow> bool" where
  \<comment> \<open>The line boundaries of \<open>str.splitlines\<close> below U+0100.\<close>
  "is_linebreak c \<longleftrightarrow>
     c = CHR 0x0A \<or> c = CHR 0x0B \<or> c = CHR 0x0C \<or> c = CHR 0x0D \<or>
     c = CHR 0x1C \<or> c = CHR 0x1D \<or> c = CHR 0x1E \<or> c = CHR 0x85"

definition strip :: "string \<Rightarrow> string" where
  \<comment> \<open>\<open>s.strip()\<close>\<close>
  "strip s = rev (dropWhile is_space (rev (dropWhile is_space s)))"

definition strip_chr :: "char \<Rightarrow> string \<Rightarrow> string" where
  \<comment> \<open>\<open>s.strip(c)\<close> for a one-character argument\<close>
  "strip_chr c s = rev (dropWhile (\<lambda>d. d = c) (rev (dropWhile (\<lambda>d. d = c) s)))"

fun split_ws_from :: "string \<Rightarrow> string \<Rightarrow> string list" where
  "split_ws_from cur [] = (if cur = [] then [] else [cur])"
| "split_ws_from cur (c # cs) =
     (if is_space c then (if cur = [] then split_ws_from [] cs else cur # split_ws_from [] cs)
      else split_ws_from (cur @ [c]) cs)"

definition split_ws :: "string \<Rightarrow> string list" where
  \<comment> \<open>\<open>s.split()\<close>: the maximal runs of non-whitespace\<close>
  "split_ws s = split_ws_from [] s"

fun split_on_from :: "char \<Rightarrow> string \<Rightarrow> string \<Rightarrow> string list" where
  "split_on_from sep cur [] = [cur]"
| "split_on_from sep cur (c # cs) =
     (if c = sep then cur # split_on_from sep [] cs else split_on_from sep (cur @ [c]) cs)"

definition split_on :: "char \<Rightarrow> string \<Rightarrow> string list" where
  \<comment> \<open>\<open>s.split(c)\<close> for a one-character separator: empty fields are kept\<close>
  "split_on sep s = split_on_from sep [] s"

fun join :: "string \<Rightarrow> string list \<Rightarrow> string" where
  \<comment> \<open>\<open>sep.join(xs)\<close>\<close>
  "join sep [] = []"
| "join sep [x] = x"
| "join sep (x # y # ys) = x @ sep @ join sep (y # ys)"

definition replace_chr :: "char \<Rightarrow> string \<Rightarrow> string \<Rightarrow> string" where
  \<comment> \<open>\<open>s.replace(c, r)\<close> for a one-character pattern\<close>
  "replace_chr c r s = concat (map (\<lambda>d. if d = c then r else [d]) s)"

definition startswith :: "string \<Rightarrow> string \<Rightarrow> bool" where
  "startswith s p \<longleftrightarrow> prefix p s"

definition endswith :: "string \<Rightarrow> string \<Rightarrow> bool" where
  "endswith s p \<longleftrightarrow> suffix p s"

fun contains :: "string \<Rightarrow> string \<Rightarrow> bool" where
  \<comment> \<open>\<open>sub in s\<close>\<close>
  "contains [] sub \<longleftrightarrow> sub = []"
| "contains (c # cs) sub \<longleftrightarrow> prefix sub (c # cs) \<or> contains cs sub"

definition rfind :: "string \<Rightarrow> char \<Rightarrow> int" where
  \<comment> \<open>\<open>s.rfind(c)\<close>: the highest index of \<open>c\<close>, or -1\<close>
  "rfind s c =
     (if c \<in> set s then int (length s) - 1 - int (length (takeWhile (\<lambda>d. d \<noteq> c) (rev s)))
      else - 1)"

definition slice :: "string \<Rightarrow> int \<Rightarrow> int \<Rightarrow> string" where
  \<comment> \<open>\<open>s[a:b]\<close> for indices that are not negative\<close>
  "slice s a b = take (nat b - nat a) (drop (nat a) s)"

definition lower_chr :: "char \<Rightarrow> char" where
  "lower_chr c =
     (let n = (of_char c :: nat)
      in if (65 \<le> n \<and> n \<le> 90) \<or> (192 \<le> n \<and> n \<le> 222 \<and> n \<noteq> 215)
         then char_of (n + 32) else c)"

definition lower :: "string \<Rightarrow> string" where
  \<comment> \<open>\<open>s.lower()\<close>\<close>
  "lower s = map lower_chr s"

fun str_nat :: "nat \<Rightarrow> string" where
  \<comment> \<open>\<open>str(n)\<close> for an \<open>int\<close> that is not negative\<close>
  "str_nat n =
     (if n < 10 then [char_of (48 + n)]
      else str_nat (n div 10) @ [char_of (48 + n mod 10)])"

fun splitlines_from :: "string \<Rightarrow> string \<Rightarrow> string list" where
  "splitlines_from cur [] = (if cur = [] then [] else [cur])"
| "splitlines_from cur [c] = (if is_linebreak c then [cur] else [cur @ [c]])"
| "splitlines_from cur (c # d # cs) =
     (if c = CHR 0x0D \<and> d = CHR 0x0A then cur # splitlines_from [] cs
      else if is_linebreak c then cur # splitlines_from [] (d # cs)
      else splitlines_from (cur @ [c]) (d # cs))"

definition splitlines :: "string \<Rightarrow> string list" where
  \<comment> \<open>\<open>s.splitlines()\<close>: no empty last line, \<open>\r\n\<close> is one boundary\<close>
  "splitlines s = splitlines_from [] s"

declare str_nat.simps [simp del]

section \<open>Errors, data and the world outside the process\<close>

datatype py_error =
    RuntimeError string
  | ErrorReturnCode nat \<comment> \<open>\<open>sh.ErrorReturnCode_<n>\<close>: a command that exits with status \<open>n\<close>\<close>
  | ValueError
  | IndexError
  | KeyError string
  | TypeError
  | AttributeError
  | OSError
  | DataError
  | OtherError string

text \<open>The fragment of JSON that the engine reads from the hosting service.\<close>

datatype json = JNull | JStr string | JObj "(string \<times> json) list"

fun json_truthy :: "json \<Rightarrow> bool" where
  "json_truthy JNull \<longleftrightarrow> False"
| "json_truthy (JStr s) \<longleftrightarrow> s \<noteq> []"
| "json_truthy (JObj kvs) \<longleftrightarrow> kvs \<noteq> []"

fun json_getitem :: "json \<Rightarrow> string \<Rightarrow> py_error + json" where
  \<comment> \<open>\<open>doc[key]\<close>\<close>
  "json_getitem (JObj kvs) k = (case map_of kvs k of None \<Rightarrow> Inl (KeyError k) | Some v \<Rightarrow> Inr v)"
| "json_getitem JNull k = Inl TypeError"
| "json_getitem (JStr s) k = Inl TypeError"

text \<open>
  A contributor handle is a key of the tally dictionary. A cached handle is \<open>bytes\<close> until it
  is decoded, and \<open>bytes\<close> and \<open>str\<close> never compare equal.
\<close>

datatype handle = Str string | Bytes string

type_synonym tally = "(handle \<times> int) list"

text \<open>A submodule as \<open>common_funcs.get_bundle_submodules\<close> lists it: a name and a dictionary.\<close>

type_synonym submodule = "string \<times> (string \<times> string) list"

text \<open>A change record of \<open>update_bundle\<close>: url, old reference, new reference, summary.\<close>

type_synonym change = "string \<times> string \<times> string \<times> string"

record release =
  tag_name :: string
  target_commitish :: string
  release_name :: string \<comment> \<open>the key \<open>"name"\<close>\<close>
  release_body :: string \<comment> \<open>the key \<open>"body"\<close>\<close>
  draft :: bool
  prerelease :: bool

record response =
  resp_ok :: bool
  resp_url :: string \<comment> \<open>\<open>response.request.url\<close>\<close>
  resp_text :: string

datatype event =
    GitQuery "string list" string \<comment> \<open>a git command that only reads, and the directory it ran in\<close>
  | GitRun "string list" string
  | Subprocess "string list" string
  | GithubGet string
  | GithubPost string release
  | Makedirs string

datatype printed = Line string | ReprRelease release

text \<open>
  The collaborators of the engine, as functions of the state \<open>'x\<close> of everything outside
  the process (repositories, working trees, the hosting service, the network). A command
  run through \<open>sh\<close> with \<open>_out\<close> yields the text it wrote and, when it fails, its exception:
  a failing command may have written text before it failed.
\<close>

record 'x sys =
  environ :: "string \<rightharpoonup> string"
  isdir :: "string \<Rightarrow> 'x \<Rightarrow> bool"
  makedirs :: "string \<Rightarrow> 'x \<Rightarrow> py_error option \<times> 'x"
  git_query :: "string list \<Rightarrow> string \<Rightarrow> 'x \<Rightarrow> string \<times> py_error option"
  git_run :: "string list \<Rightarrow> string \<Rightarrow> 'x \<Rightarrow> py_error option \<times> 'x"
  subprocess_run :: "string list \<Rightarrow> string \<Rightarrow> 'x \<Rightarrow> py_error option \<times> 'x"
  github_get :: "string \<Rightarrow> 'x \<Rightarrow> py_error + json" \<comment> \<open>\<open>github.get(url).json()\<close>\<close>
  github_post :: "string \<Rightarrow> release \<Rightarrow> 'x \<Rightarrow> (py_error + response) \<times> 'x"
  get_bundle_submodules :: "'x \<Rightarrow> py_error + submodule list"
  repo_is_on_pypi :: "string \<Rightarrow> 'x \<Rightarrow> py_error + bool"
  get_docs_link :: "string \<Rightarrow> submodule \<Rightarrow> 'x \<Rightarrow> py_error + string option"
  strftime :: "string \<Rightarrow> 'x \<Rightarrow> string" \<comment> \<open>\<open>date.today()\<close> in the given format\<close>
  str_json :: "json \<Rightarrow> string" \<comment> \<open>\<open>str(v)\<close> of a value that is not a string\<close>
  repr_bytes :: "string \<Rightarrow> string" \<comment> \<open>\<open>repr(b)\<close> of a \<open>bytes\<close> object\<close>

text \<open>
  The state of a run: the outside, the current directory, the listing documents the engine
  opens itself (path to text), the identity cache (always reachable), the external calls
  made so far and the lines printed so far.
\<close>

record 'x world =
  ext :: 'x
  cwd :: string
  files :: "string \<rightharpoonup> string"
  redis :: "string \<rightharpoonup> string"
  trace :: "event list"
  stdout :: "printed list"

type_synonym ('a, 'x) run = "'x world \<Rightarrow> (py_error + 'a) \<times> 'x world"

definition returnM :: "'a \<Rightarrow> ('a, 'x) run" where
  "returnM a w = (Inr a, w)"

definition raiseM :: "py_error \<Rightarrow> ('a, 'x) run" where
  "raiseM e w = (Inl e, w)"

definition bindM :: "('a, 'x) run \<Rightarrow> ('a \<Rightarrow> ('b, 'x) run) \<Rightarrow> ('b, 'x) run" where
  "bindM m f w = (case m w of (Inl e, w1) \<Rightarrow> (Inl e, w1) | (Inr a, w1) \<Rightarrow> f a w1)"

definition liftE :: "py_error + 'a \<Rightarrow> ('a, 'x) run" where
  "liftE r w = (r, w)"

definition print_line :: "string \<Rightarrow> (unit, 'x) run" where
  "print_line s w = (Inr (), w\<lparr>stdout := stdout w @ [Line s]\<rparr>)"

section \<open>The operating system and the command layer\<close>

definition path_join :: "string \<Rightarrow> string \<Rightarrow> string" where
  \<comment> \<open>\<open>os.path.join(a, b)\<close>\<close>
  "path_join a b =
     (if startswith b ''/'' then b
      else if a = [] \<or> endswith a ''/'' then a @ b
      else a @ ''/'' @ b)"

definition abspath :: "string \<Rightarrow> string \<Rightarrow> string" where
  \<comment> \<open>\<open>os.path.abspath(p)\<close> in the directory \<open>c\<close>, for a \<open>p\<close> that is already normalised\<close>
  "abspath c p = path_join c p"

definition os_path_isdir :: "'x sys \<Rightarrow> string \<Rightarrow> 'x world \<Rightarrow> bool" where
  "os_path_isdir env p w = isdir env (path_join (cwd w) p) (ext w)"

definition os_chdir :: "'x sys \<Rightarrow> string \<Rightarrow> (unit, 'x) run" where
  "os_chdir env p w =
     (if os_path_isdir env p w then (Inr (), w\<lparr>cwd := path_join (cwd w) p\<rparr>)
      else (Inl OSError, w))"

definition os_makedirs :: "'x sys \<Rightarrow> string \<Rightarrow> (unit, 'x) run" where
  "os_makedirs env p w =
     (case makedirs env (path_join (cwd w) p) (ext w) of
        (r, x) \<Rightarrow>
          ((case r of None \<Rightarrow> Inr () | Some e \<Rightarrow> Inl e),
           w\<lparr>ext := x, trace := trace w @ [Makedirs (path_join (cwd w) p)]\<rparr>))"

definition os_environ :: "'x sys \<Rightarrow> string \<Rightarrow> (string, 'x) run" where
  \<comment> \<open>\<open>os.environ[k]\<close>\<close>
  "os_environ env k =
     liftE (case environ env k of None \<Rightarrow> Inl (KeyError k) | Some v \<Rightarrow> Inr v)"

definition git_out :: "'x sys \<Rightarrow> string list \<Rightarrow> 'x world \<Rightarrow> (string \<times> py_error option) \<times> 'x world" where
  \<comment> \<open>\<open>git.<command>(..., _out=buffer)\<close>: the text in the buffer and the exception, if any\<close>
  "git_out env args w =
     (git_query env args (cwd w) (ext w), w\<lparr>trace := trace w @ [GitQuery args (cwd w)]\<rparr>)"

definition git_text :: "'x sys \<Rightarrow> string list \<Rightarrow> (string, 'x) run" where
  \<comment> \<open>the same with no handler around it: the exception propagates\<close>
  "git_text env args w =
     (case git_out env args w of
        ((out, None), w1) \<Rightarrow> (Inr out, w1)
      | ((out, Some e), w1) \<Rightarrow> (Inl e, w1))"

definition git :: "'x sys \<Rightarrow> string list \<Rightarrow> (unit, 'x) run" where
  \<comment> \<open>a git command run for its effect\<close>
  "git env args w =
     (case git_run env args (cwd w) (ext w) of
        (r, x) \<Rightarrow>
          ((case r of None \<Rightarrow> Inr () | Some e \<Rightarrow> Inl e),
           w\<lparr>ext := x, trace := trace w @ [GitRun args (cwd w)]\<rparr>))"

definition subprocess :: "'x sys \<Rightarrow> string list \<Rightarrow> (unit, 'x) run" where
  \<comment> \<open>\<open>subprocess.run(args)\<close>: the exit status is not looked at\<close>
  "subprocess env args w =
     (case subprocess_run env args (cwd w) (ext w) of
        (r, x) \<Rightarrow>
          ((case r of None \<Rightarrow> Inr () | Some e \<Rightarrow> Inl e),
           w\<lparr>ext := x, trace := trace w @ [Subprocess args (cwd w)]\<rparr>))"

definition github_get_json :: "'x sys \<Rightarrow> string \<Rightarrow> (json, 'x) run" where
  "github_get_json env url w =
     (github_get env url (ext w), w\<lparr>trace := trace w @ [GithubGet url]\<rparr>)"

definition github_post_json :: "'x sys \<Rightarrow> string \<Rightarrow> release \<Rightarrow> (response, 'x) run" where
  "github_post_json env url rel w =
     (case github_post env url rel (ext w) of
        (r, x) \<Rightarrow> (r, w\<lparr>ext := x, trace := trace w @ [GithubPost url rel]\<rparr>))"

section \<open>Reference resolution\<close>

definition with_Submodule :: "'x sys \<Rightarrow> string \<Rightarrow> ('a, 'x) run \<Rightarrow> ('a, 'x) run" where
  \<comment> \<open>\<open>with Submodule(directory): body\<close>\<close>
  "with_Submodule env directory body w =
     (let original_directory = abspath (cwd w) (cwd w) in
      case os_chdir env directory w of
        (Inl e, w1) \<Rightarrow> (Inl e, w1)
      | (Inr u, w1) \<Rightarrow>
          (case body w1 of
             (r, w2) \<Rightarrow>
               (case os_chdir env original_directory w2 of
                  (Inl e, w3) \<Rightarrow> (Inl e, w3)
                | (Inr u, w3) \<Rightarrow> (r, w3))))"

definition describe_exact :: "'x sys \<Rightarrow> string \<Rightarrow> (string, 'x) run" where
  \<comment> \<open>the \<open>try\<close> statement of \<open>commit_to_tag\<close>\<close>
  "describe_exact env commit w =
     (case git_out env [''describe'', ''--tags'', ''--exact-match'', commit] w of
        ((out, None), w1) \<Rightarrow> (Inr (strip out), w1)
      | ((out, Some e), w1) \<Rightarrow>
          (if e = ErrorReturnCode 128 then (Inr commit, w1) else (Inl e, w1)))"

definition commit_to_tag :: "'x sys \<Rightarrow> string \<Rightarrow> string \<Rightarrow> (string, 'x) run" where
  "commit_to_tag env repo_path commit = with_Submodule env repo_path (describe_exact env commit)"

definition repo_version :: "'x sys \<Rightarrow> (string, 'x) run" where
  "repo_version env w =
     (case git_out env [''describe'', ''--tags'', ''--exact-match''] w of
        ((out, None), w1) \<Rightarrow> (Inr (strip out), w1)
      | ((out, Some e), w1) \<Rightarrow>
          (if e = ErrorReturnCode 128 then
             (case git_out env [''log'', ''--pretty=format:%h'', ''-n'', ''1''] w1 of
                ((out2, None), w2) \<Rightarrow> (Inr (strip (out @ out2)), w2)
              | ((out2, Some e2), w2) \<Rightarrow> (Inl e2, w2))
           else (Inl e, w1)))"

definition repo_sha :: "'x sys \<Rightarrow> (string, 'x) run" where
  "repo_sha env =
     bindM (git_text env [''log'', ''--pretty=format:%H'', ''-n'', ''1'']) (\<lambda>version.
     returnM (strip version))"

definition repo_remote_url :: "'x sys \<Rightarrow> string \<Rightarrow> (string, 'x) run" where
  "repo_remote_url env repo_path =
     with_Submodule env repo_path
       (bindM (git_text env [''remote'', ''get-url'', ''origin'']) (\<lambda>output.
        returnM (strip output)))"

section \<open>The library list\<close>

definition getitem :: "(string \<times> string) list \<Rightarrow> string \<Rightarrow> py_error + string" where
  \<comment> \<open>\<open>d[k]\<close> on a dictionary of strings\<close>
  "getitem d k = (case map_of d k of None \<Rightarrow> Inl (KeyError k) | Some v \<Rightarrow> Inr v)"

fun sequence :: "('e + 'a) list \<Rightarrow> 'e + 'a list" where
  "sequence [] = Inr []"
| "sequence (r # rs) =
     (case r of
        Inl e \<Rightarrow> Inl e
      | Inr a \<Rightarrow> (case sequence rs of Inl e \<Rightarrow> Inl e | Inr as \<Rightarrow> Inr (a # as)))"

definition sorted_by :: "('a \<Rightarrow> 'e + string) \<Rightarrow> 'a list \<Rightarrow> 'e + 'a list" where
  \<comment> \<open>\<open>sorted(xs, key=key)\<close>: the keys are computed first, the sort is stable\<close>
  "sorted_by key xs =
     (case sequence (map (\<lambda>x. case key x of Inl e \<Rightarrow> Inl e | Inr k \<Rightarrow> Inr (k, x)) xs) of
        Inl e \<Rightarrow> Inl e
      | Inr kxs \<Rightarrow> Inr (map snd (sort_key fst kxs)))"

definition url_name_of :: "string \<Rightarrow> string" where
  "url_name_of url =
     slice url (rfind url CHR ''/'' + 1)
       (if rfind url CHR ''.'' > rfind url CHR ''/'' then rfind url CHR ''.''
        else int (length url))"

definition list_line_of :: "'x sys \<Rightarrow> string \<Rightarrow> submodule \<Rightarrow> 'x \<Rightarrow> py_error + string \<times> string" where
  \<comment> \<open>\<open>url_name\<close> and \<open>list_line\<close> of one submodule\<close>
  "list_line_of env bundle_path submodule x =
     (case getitem (snd submodule) ''url'' of
        Inl e \<Rightarrow> Inl e
      | Inr url \<Rightarrow>
          (let url_name = url_name_of url in
           case repo_is_on_pypi env url_name x of
             Inl e \<Rightarrow> Inl e
           | Inr on_pypi \<Rightarrow>
               (let pypi_name =
                      (if on_pypi
                       then '' ([PyPi](https://pypi.org/project/'' @
                            lower (replace_chr CHR ''_'' ''-'' url_name) @ ''))''
                       else [])
                in case get_docs_link env bundle_path submodule x of
                     Inl e \<Rightarrow> Inl e
                   | Inr docs_link \<Rightarrow>
                       (let docs_name =
                              (case docs_link of
                                 None \<Rightarrow> []
                               | Some link \<Rightarrow>
                                   if link = [] then []
                                   else '' '' @ [CHR 0x5C] @ ''([Docs]('' @ link @ ''))'');
                            title = replace_chr CHR ''_'' '' '' url_name
                        in Inr (url_name,
                                ''* ['' @ title @ '']('' @ url @ '')'' @ pypi_name @ docs_name)))))"

fun lib_lines_loop ::
  "'x sys \<Rightarrow> string \<Rightarrow> string list \<Rightarrow> 'x \<Rightarrow> submodule list \<Rightarrow>
   string list \<times> string list \<times> string list \<Rightarrow> py_error + string list \<times> string list \<times> string list" where
  \<comment> \<open>the loop over \<open>submodules_list\<close>; the state is \<open>(write_drivers, write_helpers, updates_made)\<close>\<close>
  "lib_lines_loop env bundle_path read_lines x [] st = Inr st"
| "lib_lines_loop env bundle_path read_lines x (submodule # rest) (write_drivers, write_helpers, updates_made) =
     (case list_line_of env bundle_path submodule x of
        Inl e \<Rightarrow> Inl e
      | Inr (url_name, list_line) \<Rightarrow>
          (let updates_made' =
                 (if list_line \<notin> set read_lines then updates_made @ [url_name] else updates_made)
           in case getitem (snd submodule) ''path'' of
                Inl e \<Rightarrow> Inl e
              | Inr path \<Rightarrow>
                  if contains path ''drivers''
                  then lib_lines_loop env bundle_path read_lines x rest
                         (write_drivers @ [list_line], write_helpers, updates_made')
                  else if contains path ''helpers''
                  then lib_lines_loop env bundle_path read_lines x rest
                         (write_drivers, write_helpers @ [list_line], updates_made')
                  else lib_lines_loop env bundle_path read_lines x rest
                         (write_drivers, write_helpers, updates_made')))"

definition lib_list_header :: "nat \<Rightarrow> string list" where
  "lib_list_header lib_count =
     [''# Adafruit CircuitPython Libraries'',
      ''![Blinka Reading](https://raw.githubusercontent.com/adafruit/circuitpython-weekly-'' @
      ''newsletter/gh-pages/assets/archives/22_1023blinka.png)'',
      ''Here is a listing of current Adafruit CircuitPython Libraries.'',
      ''There are '' @ str_nat lib_count @ '' libraries available.'' @ [CHR 0x0A],
      ''## Drivers:'' @ [CHR 0x0A]]"

definition lib_list_text :: "nat \<Rightarrow> string list \<Rightarrow> string list \<Rightarrow> string" where
  \<comment> \<open>everything written to \<open>md_file\<close>, in the order of the writes\<close>
  "lib_list_text lib_count write_drivers write_helpers =
     join [CHR 0x0A] (lib_list_header lib_count) @
     concat (map (\<lambda>line. line @ [CHR 0x0A]) (sort write_drivers)) @
     [CHR 0x0A] @ ''## Helpers:'' @ [CHR 0x0A] @
     concat (map (\<lambda>line. line @ [CHR 0x0A]) (sort write_helpers))"

definition lib_list_path :: "string \<Rightarrow> 'x world \<Rightarrow> string" where
  "lib_list_path bundle_path w =
     path_join (cwd w) (path_join bundle_path ''circuitpython_library_list.md'')"

definition open_write :: "'x sys \<Rightarrow> string \<Rightarrow> string \<Rightarrow> string \<Rightarrow> (unit, 'x) run" where
  \<comment> \<open>\<open>with open(os.path.join(directory, name), "w") as f: f.write(content)\<close>: the file is
      replaced; opening fails where the directory does not exist\<close>
  "open_write env directory name content w =
     (if os_path_isdir env directory w
      then (Inr (), w\<lparr>files := (files w)(path_join (cwd w) (path_join directory name) \<mapsto> content)\<rparr>)
      else (Inl OSError, w))"

definition check_lib_links_md :: "'x sys \<Rightarrow> string \<Rightarrow> (string list, 'x) run" where
  "check_lib_links_md env bundle_path w =
     (if \<not> contains bundle_path ''Adafruit_CircuitPython_Bundle'' then (Inr [], w)
      else
        case get_bundle_submodules env (ext w) of
          Inl e \<Rightarrow> (Inl e, w)
        | Inr submodules \<Rightarrow>
           (case sorted_by (\<lambda>module. getitem (snd module) ''path'') submodules of
              Inl e \<Rightarrow> (Inl e, w)
            | Inr submodules_list \<Rightarrow>
               (let lib_count = length submodules_list;
                    read_lines =
                      (case files w (lib_list_path bundle_path w) of
                         None \<Rightarrow> []
                       | Some content \<Rightarrow> splitlines content)
                in case lib_lines_loop env bundle_path read_lines (ext w) submodules_list ([], [], []) of
                     Inl e \<Rightarrow> (Inl e, w)
                   | Inr (write_drivers, write_helpers, updates_made) \<Rightarrow>
                       bindM (open_write env bundle_path ''circuitpython_library_list.md''
                                (lib_list_text lib_count write_drivers write_helpers))
                         (\<lambda>u. returnM updates_made) w)))"

section \<open>The status scanner\<close>

definition update_bundle_status :: "'x sys \<Rightarrow> string \<Rightarrow> (string \<times> string, 'x) run" where
  \<comment> \<open>\<open>update_bundle\<close> up to the status report: yields \<open>working_directory\<close> and the report\<close>
  "update_bundle_status env bundle_path w =
     (let working_directory = abspath (cwd w) (cwd w) in
      bindM (os_chdir env bundle_path) (\<lambda>u.
      bindM (git env [''submodule'', ''foreach'', ''git'', ''fetch'']) (\<lambda>u.
      bindM (subprocess env
               [''git'', ''submodule'', ''foreach'',
                ''git checkout -q `git rev-list --exclude=*-* --tags --max-count=1`'']) (\<lambda>u.
      bindM (git_text env [''status'', ''--short'']) (\<lambda>status.
      returnM (working_directory, strip status))))) w)"

definition status_line_change :: "'x sys \<Rightarrow> string \<Rightarrow> (change, 'x) run" where
  \<comment> \<open>the tag difference of one modified library\<close>
  "status_line_change env directory =
     bindM (git_text env [''diff'', ''--submodule=log'', directory]) (\<lambda>diff.
       let diff_lines = split_on (CHR 0x0A) diff in
       case split_ws (hd diff_lines) of
         t0 # t1 # t2 # ts \<Rightarrow>
           (let commit_range = split_on CHR ''.'' (strip_chr CHR '':'' t2) in
            bindM (commit_to_tag env directory (hd commit_range)) (\<lambda>old_commit.
            bindM (commit_to_tag env directory (last commit_range)) (\<lambda>new_commit.
            bindM (repo_remote_url env directory) (\<lambda>url.
            let summary = join [CHR 0x0A] (butlast (tl diff_lines)) in
            returnM (take (length url - 4) url, old_commit, new_commit, summary)))))
       | _ \<Rightarrow> raiseM IndexError)"

definition update_bundle_line :: "'x sys \<Rightarrow> string \<Rightarrow> change list \<Rightarrow> (change list, 'x) run" where
  \<comment> \<open>the body of the loop over the status lines\<close>
  "update_bundle_line env status_line updates =
     (case split_ws status_line of
        [action, directory] \<Rightarrow>
          if endswith directory ''library_list.md'' then returnM updates
          else if action \<noteq> ''M'' \<or> \<not> startswith directory ''libraries''
          then raiseM (RuntimeError ''Unsupported updates'')
          else bindM (status_line_change env directory) (\<lambda>c. returnM (updates @ [c]))
      | _ \<Rightarrow> raiseM ValueError)"

fun update_bundle_loop :: "'x sys \<Rightarrow> string list \<Rightarrow> change list \<Rightarrow> (change list, 'x) run" where
  "update_bundle_loop env [] updates w = (Inr updates, w)"
| "update_bundle_loop env (status_line # rest) updates w =
     (case update_bundle_line env status_line updates w of
        (Inl e, w1) \<Rightarrow> (Inl e, w1)
      | (Inr updates1, w1) \<Rightarrow> update_bundle_loop env rest updates1 w1)"

definition update_bundle :: "'x sys \<Rightarrow> string \<Rightarrow> (change list, 'x) run" where
  "update_bundle env bundle_path =
     bindM (update_bundle_status env bundle_path) (\<lambda>(working_directory, status).
     bindM (if status \<noteq> [] then update_bundle_loop env (split_on (CHR 0x0A) status) []
            else returnM []) (\<lambda>updates.
     bindM (os_chdir env working_directory) (\<lambda>u.
     bindM (check_lib_links_md env bundle_path) (\<lambda>lib_list_updates.
     returnM
       (if lib_list_updates \<noteq> [] then
          updates @
          [(''https://github.com/adafruit/Adafruit_CircuitPython_Bundle/'' @
            ''circuitpython_library_list.md'',
            ''NA'', ''NA'',
            ''  > Added the following libraries: '' @ join '', '' lib_list_updates)]
        else updates)))))"

section \<open>Contributors\<close>

fun truthy :: "handle option \<Rightarrow> bool" where
  \<comment> \<open>the truth value of \<open>None\<close>, of a \<open>str\<close> and of a \<open>bytes\<close>\<close>
  "truthy None \<longleftrightarrow> False"
| "truthy (Some (Str s)) \<longleftrightarrow> s \<noteq> []"
| "truthy (Some (Bytes s)) \<longleftrightarrow> s \<noteq> []"

fun handle_text :: "handle \<Rightarrow> string" where
  "handle_text (Str s) = s"
| "handle_text (Bytes s) = s"

fun decode :: "handle option \<Rightarrow> py_error + handle option" where
  \<comment> \<open>\<open>v.decode("utf-8")\<close>: only \<open>bytes\<close> has the method\<close>
  "decode (Some (Bytes s)) = Inr (Some (Str s))"
| "decode (Some (Str s)) = Inl AttributeError"
| "decode None = Inl AttributeError"

definition redis_get :: "string \<Rightarrow> 'x world \<Rightarrow> handle option" where
  \<comment> \<open>\<open>REDIS.get(k)\<close>: \<open>bytes\<close>, or \<open>None\<close>\<close>
  "redis_get k w = map_option Bytes (redis w k)"

definition redis_set :: "string \<Rightarrow> string \<Rightarrow> (unit, 'x) run" where
  "redis_set k v w = (Inr (), w\<lparr>redis := (redis w)(k \<mapsto> v)\<rparr>)"

definition github_login ::
  "json \<Rightarrow> string \<Rightarrow> string \<Rightarrow> handle option \<Rightarrow> (handle option, 'x) run" where
  \<comment> \<open>\<open>if info[field]: who = info[field]["login"]; REDIS.set(key, who)\<close>; the cache refuses a
      value that is not a string\<close>
  "github_login info field email who =
     bindM (liftE (json_getitem info field)) (\<lambda>person.
       if json_truthy person then
         bindM (liftE (json_getitem person ''login'')) (\<lambda>login.
           case login of
             JStr s \<Rightarrow> bindM (redis_set (''github_username:'' @ email) s) (\<lambda>u. returnM (Some (Str s)))
           | JNull \<Rightarrow> raiseM DataError
           | JObj kvs \<Rightarrow> raiseM DataError)
       else returnM who)"

definition resolve_commit ::
  "'x sys \<Rightarrow> string \<Rightarrow> string \<Rightarrow> string \<Rightarrow> string \<Rightarrow> (handle option \<times> handle option, 'x) run" where
  \<comment> \<open>\<open>author\<close> and \<open>committer\<close> of one commit, from the cache or from the hosting service\<close>
  "resolve_commit env repo sha author_email committer_email w =
     (let author = redis_get (''github_username:'' @ author_email) w;
          committer = redis_get (''github_username:'' @ committer_email) w
      in if \<not> truthy author \<or> \<not> truthy committer then
           bindM (github_get_json env (''/repos/'' @ repo @ ''/commits/'' @ sha)) (\<lambda>info.
           bindM (github_login info ''author'' author_email author) (\<lambda>author1.
           bindM (github_login info ''committer'' committer_email committer) (\<lambda>committer1.
           returnM (author1, committer1)))) w
         else
           bindM (liftE (decode author)) (\<lambda>author1.
           bindM (liftE (decode committer)) (\<lambda>committer1.
           returnM (author1, committer1))) w)"

definition seen :: "handle option \<Rightarrow> tally \<Rightarrow> tally" where
  \<comment> \<open>\<open>if who and who not in contributors: contributors[who] = 0\<close>\<close>
  "seen who contributors =
     (case who of
        None \<Rightarrow> contributors
      | Some h \<Rightarrow>
          if truthy who \<and> map_of contributors h = None then AList.update h 0 contributors
          else contributors)"

definition bump :: "handle \<Rightarrow> int \<Rightarrow> tally \<Rightarrow> py_error + tally" where
  \<comment> \<open>\<open>contributors[h] += n\<close>\<close>
  "bump h n contributors =
     (case map_of contributors h of
        None \<Rightarrow> Inl (KeyError (handle_text h))
      | Some v \<Rightarrow> Inr (AList.update h (v + n) contributors))"

definition credit :: "string \<Rightarrow> handle option \<Rightarrow> handle option \<Rightarrow> tally \<Rightarrow> py_error + tally" where
  \<comment> \<open>the tally of one commit, once \<open>author\<close> and \<open>committer\<close> are resolved\<close>
  "credit committer_email author committer0 contributors =
     (let committer = (if committer_email = ''noreply@github.com'' then None else committer0);
          c1 = seen author contributors;
          c2 = seen committer c1
      in case (case author of
                 None \<Rightarrow> Inr c2
               | Some a \<Rightarrow> if truthy author then bump a 1 c2 else Inr c2) of
           Inl e \<Rightarrow> Inl e
         | Inr c3 \<Rightarrow>
             (case committer of
                None \<Rightarrow> Inr c3
              | Some c \<Rightarrow> if truthy committer \<and> committer \<noteq> author then bump c 1 c3 else Inr c3))"

definition get_contributors_line :: "'x sys \<Rightarrow> string \<Rightarrow> string \<Rightarrow> tally \<Rightarrow> (tally, 'x) run" where
  \<comment> \<open>the body of the loop over the log lines\<close>
  "get_contributors_line env repo log_line contributors =
     (case split_on CHR '','' log_line of
        [sha, author_email, committer_email] \<Rightarrow>
          bindM (resolve_commit env repo sha author_email committer_email) (\<lambda>(author, committer).
          liftE (credit committer_email author committer contributors))
      | _ \<Rightarrow> raiseM ValueError)"

fun get_contributors_loop :: "'x sys \<Rightarrow> string \<Rightarrow> string list \<Rightarrow> tally \<Rightarrow> (tally, 'x) run" where
  "get_contributors_loop env repo [] contributors w = (Inr contributors, w)"
| "get_contributors_loop env repo (log_line # rest) contributors w =
     (case get_contributors_line env repo log_line contributors w of
        (Inl e, w1) \<Rightarrow> (Inl e, w1)
      | (Inr contributors1, w1) \<Rightarrow> get_contributors_loop env repo rest contributors1 w1)"

definition get_contributors_log :: "'x sys \<Rightarrow> string \<Rightarrow> string \<Rightarrow> (string, 'x) run" where
  \<comment> \<open>the \<open>try\<close> statement of \<open>get_contributors\<close> and the \<open>strip\<close> after it\<close>
  "get_contributors_log env repo commit_range w =
     (case git_out env [''log'', ''--pretty=tformat:%H,%ae,%ce'', commit_range] w of
        ((out, None), w1) \<Rightarrow> (Inr (strip out), w1)
      | ((out, Some e), w1) \<Rightarrow>
          if e = ErrorReturnCode 128
          then bindM (print_line (''Skipping contributors for: '' @ repo)) (\<lambda>u. returnM (strip out)) w1
          else (Inl e, w1))"

definition get_contributors :: "'x sys \<Rightarrow> string \<Rightarrow> string \<Rightarrow> (tally, 'x) run" where
  "get_contributors env repo commit_range =
     bindM (get_contributors_log env repo commit_range) (\<lambda>output.
     if output = [] then returnM []
     else get_contributors_loop env repo (split_on (CHR 0x0A) output) [])"

definition repo_name :: "string \<Rightarrow> py_error + string" where
  "repo_name url =
     (let url1 = (if endswith url ''.git'' then take (length url - 4) url else url);
          parts = split_on CHR ''/'' url1
      in if length parts < 2 then Inl IndexError
         else Inr (last (butlast parts) @ ''/'' @ last parts))"

fun add_contributors_loop :: "handle list \<Rightarrow> tally \<Rightarrow> tally \<Rightarrow> py_error + tally" where
  \<comment> \<open>the loop over the keys of \<open>additions\<close>\<close>
  "add_contributors_loop [] additions master_list = Inr master_list"
| "add_contributors_loop (contributor # rest) additions master_list =
     (let m1 = (if map_of master_list contributor = None
                then AList.update contributor 0 master_list else master_list)
      in case map_of additions contributor of
           None \<Rightarrow> Inl (KeyError (handle_text contributor))
         | Some n \<Rightarrow>
             (case bump contributor n m1 of
                Inl e \<Rightarrow> Inl e
              | Inr m2 \<Rightarrow> add_contributors_loop rest additions m2))"

definition add_contributors :: "tally \<Rightarrow> tally \<Rightarrow> py_error + tally" where
  \<comment> \<open>the source updates \<open>master_list\<close> in place; the model returns it\<close>
  "add_contributors master_list additions =
     add_contributors_loop (map fst additions) additions master_list"

section \<open>Fetching, committing and pushing\<close>

definition fetch_bundle :: "'x sys \<Rightarrow> string \<Rightarrow> string \<Rightarrow> (unit, 'x) run" where
  "fetch_bundle env bundle bundle_path =
     bindM (\<lambda>w.
        if \<not> os_path_isdir env bundle_path w then
          bindM (os_makedirs env bundle_path) (\<lambda>u.
            if environ env ''GITHUB_WORKSPACE'' \<noteq> None then
              bindM (os_environ env ''ADABOT_GITHUB_ACCESS_TOKEN'') (\<lambda>token.
                let git_url = ''https://'' @ token @ ''@github.com/adafruit/'' in
                git env [''clone'', ''-o'', ''adafruit'', git_url @ bundle @ ''.git'', bundle_path])
            else
              git env [''clone'', ''-o'', ''adafruit'',
                       ''https://github.com/adafruit/'' @ bundle @ ''.git'', bundle_path]) w
        else (Inr (), w)) (\<lambda>u w.
     (let working_directory = cwd w in
      bindM (os_chdir env bundle_path) (\<lambda>u.
      bindM (git env [''pull'']) (\<lambda>u.
      bindM (git env [''submodule'', ''init'']) (\<lambda>u.
      bindM (git env [''submodule'', ''update'']) (\<lambda>u.
      os_chdir env working_directory)))) w))"

definition update_message :: "change \<Rightarrow> py_error + string" where
  \<comment> \<open>the paragraph of the commit message for one change record\<close>
  "update_message c =
     (case c of
        (url, old_commit, new_commit, summary) \<Rightarrow>
          (let url_parts = split_on CHR ''/'' url in
           if length url_parts < 2 then Inl ValueError
           else
             (let user = last (butlast url_parts);
                  repo = last url_parts;
                  summary1 = replace_chr CHR ''#'' (user @ ''/'' @ repo @ ''#'') summary
              in Inr (''Updating '' @ url @ '' to '' @ new_commit @ '' from '' @ old_commit @
                      '':'' @ [CHR 0x0A] @ summary1))))"

definition commit_updates :: "'x sys \<Rightarrow> string \<Rightarrow> change list \<Rightarrow> (unit, 'x) run" where
  "commit_updates env bundle_path update_info w =
     (let working_directory = abspath (cwd w) (cwd w) in
      bindM (repo_version env) (\<lambda>version.
      bindM (os_chdir env bundle_path) (\<lambda>u.
      bindM (liftE (sequence (map update_message update_info))) (\<lambda>paragraphs.
      let message =
            join [CHR 0x0A, CHR 0x0A]
              ((''Automated update by Adabot (adafruit/adabot@'' @ version @ '')'') # paragraphs)
      in
      bindM (git env [''add'', ''.'']) (\<lambda>u.
      bindM (git env [''commit'', ''--message='' @ message]) (\<lambda>u.
      os_chdir env working_directory))))) w)"

definition push_updates :: "'x sys \<Rightarrow> string \<Rightarrow> (unit, 'x) run" where
  "push_updates env bundle_path w =
     (let working_directory = abspath (cwd w) (cwd w) in
      bindM (os_chdir env bundle_path) (\<lambda>u.
      bindM (git env [''push'']) (\<lambda>u.
      os_chdir env working_directory)) w)"

section \<open>The release composer\<close>

record rel_state =
  current_submodule :: "string option"
  current_index :: "string option"
  added_submodules :: "string list"
  updated_submodules :: "string list"
  repo_links :: "(string \<times> string) list"
  contributors :: tally

definition submodule_change ::
  "'x sys \<Rightarrow> string \<Rightarrow> string \<Rightarrow> string \<Rightarrow> rel_state \<Rightarrow> (rel_state, 'x) run" where
  \<comment> \<open>a submodule change that is documented: from \<open>repo_remote_url\<close> to the end of the body\<close>
  "submodule_change env directory library_name commit_range st =
     bindM (repo_remote_url env directory) (\<lambda>repo_url.
     let new_commit = last (split_on CHR ''.'' commit_range) in
     bindM (commit_to_tag env directory new_commit) (\<lambda>release_tag.
     bindM (with_Submodule env directory
              (bindM (liftE (repo_name repo_url)) (\<lambda>name.
               bindM (get_contributors env name commit_range) (\<lambda>submodule_contributors.
               liftE (add_contributors (contributors st) submodule_contributors))))) (\<lambda>merged.
     returnM (st\<lparr>contributors := merged,
                 repo_links := AList.update library_name
                   (take (length repo_url - 4) repo_url @ ''/releases/'' @ release_tag)
                   (repo_links st)\<rparr>))))"

definition new_release_candidate :: "'x sys \<Rightarrow> rel_state \<Rightarrow> (rel_state, 'x) run" where
  \<comment> \<open>the body of the loop from the comment \<open>We have a candidate submodule change\<close> on\<close>
  "new_release_candidate env st =
     (case current_index st of
        None \<Rightarrow> raiseM AttributeError
      | Some index_line \<Rightarrow>
          (case split_ws index_line of
             t0 # commit_range # ts \<Rightarrow>
               (case current_submodule st of
                  None \<Rightarrow> raiseM AttributeError
                | Some directory \<Rightarrow>
                    (let library_name = last (split_on CHR ''/'' directory) in
                     if startswith commit_range ''0000000'' then
                       submodule_change env directory library_name
                         (last (split_on CHR ''.'' commit_range))
                         (st\<lparr>added_submodules := added_submodules st @ [library_name]\<rparr>)
                     else if endswith commit_range ''0000000'' then returnM st
                     else
                       submodule_change env directory library_name commit_range
                         (st\<lparr>updated_submodules := updated_submodules st @ [library_name]\<rparr>)))
           | _ \<Rightarrow> raiseM IndexError))"

definition new_release_line :: "'x sys \<Rightarrow> string \<Rightarrow> rel_state \<Rightarrow> (rel_state, 'x) run" where
  \<comment> \<open>the body of the loop over the lines of the diff\<close>
  "new_release_line env line st =
     (if startswith line ''diff'' then
        (case split_ws line of
           [] \<Rightarrow> raiseM IndexError
         | t # ts \<Rightarrow> returnM (st\<lparr>current_submodule := Some (drop 2 (last (t # ts)))\<rparr>))
      else if contains line ''index'' then returnM (st\<lparr>current_index := Some line\<rparr>)
      else if \<not> startswith line ''+Subproject'' then returnM st
      else new_release_candidate env st)"

fun new_release_loop :: "'x sys \<Rightarrow> string list \<Rightarrow> rel_state \<Rightarrow> (rel_state, 'x) run" where
  "new_release_loop env [] st w = (Inr st, w)"
| "new_release_loop env (line # rest) st w =
     (case new_release_line env line st w of
        (Inl e, w1) \<Rightarrow> (Inl e, w1)
      | (Inr st1, w1) \<Rightarrow> new_release_loop env rest st1 w1)"

definition library_links :: "(string \<times> string) list \<Rightarrow> string list \<Rightarrow> py_error + string list" where
  \<comment> \<open>\<open>[f"[{library}]({repo_links[library]})" for library in libraries]\<close>\<close>
  "library_links links libraries =
     sequence (map (\<lambda>library.
       case map_of links library of
         None \<Rightarrow> Inl (KeyError library)
       | Some link \<Rightarrow> Inr (''['' @ library @ '']('' @ link @ '')'')) libraries)"

definition mention :: "'x sys \<Rightarrow> handle \<Rightarrow> string" where
  \<comment> \<open>the mention of a contributor: an at sign before \<open>str(x)\<close>\<close>
  "mention env h = (case h of Str s \<Rightarrow> ''@'' @ s | Bytes s \<Rightarrow> ''@'' @ repr_bytes env s)"

definition release_description :: "'x sys \<Rightarrow> rel_state \<Rightarrow> py_error + string list" where
  "release_description env st =
     (case (if added_submodules st \<noteq> [] then
              (case library_links (repo_links st) (added_submodules st) of
                 Inl e \<Rightarrow> Inl e
               | Inr additions \<Rightarrow> Inr [''New libraries: '' @ join '', '' additions])
            else Inr []) of
        Inl e \<Rightarrow> Inl e
      | Inr d1 \<Rightarrow>
          (case (if updated_submodules st \<noteq> [] then
                   (case library_links (repo_links st) (updated_submodules st) of
                      Inl e \<Rightarrow> Inl e
                    | Inr updates \<Rightarrow> Inr [''Updated libraries: '' @ join '', '' updates])
                 else Inr []) of
             Inl e \<Rightarrow> Inl e
           | Inr d2 \<Rightarrow>
               (let ranked = map fst (sort_key (\<lambda>(h, n). - n) (contributors st));
                    mentions = map (mention env) ranked
                in Inr (d1 @ d2 @ [[]] @
                   [''As always, thank you to all of our contributors: '' @ join '', '' mentions,
                    [CHR 0x0A] @ ''--------------------------'' @ [CHR 0x0A],
                    ''The libraries in each release are compiled for all recent major versions of CircuitPython.'' @
                    '' Please download the one that matches the major version of your CircuitPython. For example'' @
                    '', if you are running 6.0.0 you should download the `6.x` bundle.'' @ [CHR 0x0A],
                    ''To install, simply download the matching zip file, unzip it, and selectively copy the'' @
                    '' libraries you would like to install into the lib folder on your CIRCUITPY drive. This is'' @
                    '' especially important for non-express boards with limited flash, such as the'' @
                    '' [Trinket M0](https://www.adafruit.com/product/3500),'' @
                    '' [Gemma M0](https://www.adafruit.com/product/3501) and'' @
                    '' [Feather M0 Basic](https://www.adafruit.com/product/2772).'']))))"

definition publish :: "'x sys \<Rightarrow> string \<Rightarrow> string \<Rightarrow> rel_state \<Rightarrow> (unit, 'x) run" where
  \<comment> \<open>\<open>new_release\<close> after the loop: the payload, the request and the report of a refusal\<close>
  "publish env bundle working_directory st =
     bindM (liftE (release_description env st)) (\<lambda>description.
     bindM (repo_sha env) (\<lambda>sha w.
     (let rel = \<lparr>tag_name = strftime env ''%Y%m%d'' (ext w),
                 target_commitish = sha,
                 release_name = strftime env ''%B'' (ext w) @ '' '' @ strftime env ''%d'' (ext w) @
                                '', '' @ strftime env ''%Y'' (ext w) @ '' auto-release'',
                 release_body = join [CHR 0x0A] description,
                 draft = False,
                 prerelease = False\<rparr>
      in
      bindM (print_line (''Releasing '' @ tag_name rel)) (\<lambda>u.
      bindM (print_line (release_body rel)) (\<lambda>u.
      bindM (github_post_json env (''/repos/adafruit/'' @ bundle @ ''/releases'') rel) (\<lambda>response.
      bindM (if \<not> resp_ok response then
               bindM (print_line ''Failed to create release'') (\<lambda>u.
               bindM (\<lambda>w1. (Inr (), w1\<lparr>stdout := stdout w1 @ [ReprRelease rel]\<rparr>)) (\<lambda>u.
               bindM (print_line (resp_url response)) (\<lambda>u.
               print_line (resp_text response))))
             else returnM ()) (\<lambda>u.
      os_chdir env working_directory))))) w))"

definition new_release :: "'x sys \<Rightarrow> string \<Rightarrow> string \<Rightarrow> (unit, 'x) run" where
  "new_release env bundle bundle_path w =
     (let working_directory = abspath (cwd w) (cwd w) in
      bindM (os_chdir env bundle_path) (\<lambda>u.
      bindM (print_line bundle) (\<lambda>u.
      bindM (github_get_json env (''/repos/adafruit/'' @ bundle @ ''/releases/latest'')) (\<lambda>current_release.
      bindM (liftE (json_getitem current_release ''tag_name'')) (\<lambda>tag.
      let last_tag = (case tag of JStr s \<Rightarrow> s | JNull \<Rightarrow> str_json env tag | JObj kvs \<Rightarrow> str_json env tag) in
      bindM (get_contributors env (''adafruit/'' @ bundle) (last_tag @ ''..'')) (\<lambda>contributors0.
      bindM (git_text env [''diff'', ''--submodule=short'', last_tag @ ''..'']) (\<lambda>out.
      let output = strip out in
      if output = [] then print_line ''Everything is already released.''
      else
        bindM (new_release_loop env (split_on (CHR 0x0A) output)
                 \<lparr>current_submodule = None, current_index = None, added_submodules = [],
                  updated_submodules = [], repo_links = [], contributors = contributors0\<rparr>)
          (publish env bundle working_directory))))))) w)"

section \<open>The main loop\<close>

definition BUNDLES :: "string list" where
  "BUNDLES = [''Adafruit_CircuitPython_Bundle'', ''CircuitPython_Community_Bundle'']"

definition process_bundle :: "'x sys \<Rightarrow> string \<Rightarrow> string \<Rightarrow> (unit, 'x) run" where
  \<comment> \<open>the body of the \<open>try\<close> statement\<close>
  "process_bundle env bundle_dir cp_bundle =
     bindM (fetch_bundle env cp_bundle bundle_dir) (\<lambda>u.
     bindM (update_bundle env bundle_dir) (\<lambda>updates_needed.
     bindM (if updates_needed \<noteq> [] then
              bindM (commit_updates env bundle_dir updates_needed) (\<lambda>u.
              push_updates env bundle_dir)
            else returnM ()) (\<lambda>u.
     new_release env cp_bundle bundle_dir)))"

fun main_loop :: "'x sys \<Rightarrow> string \<Rightarrow> string list \<Rightarrow> (unit, 'x) run" where
  "main_loop env bundles_dir [] w = (Inr (), w)"
| "main_loop env bundles_dir (cp_bundle # rest) w =
     (case process_bundle env (path_join bundles_dir cp_bundle) cp_bundle w of
        (Inr u, w1) \<Rightarrow> main_loop env bundles_dir rest w1
      | (Inl e, w1) \<Rightarrow>
          (case e of
             RuntimeError msg \<Rightarrow>
               main_loop env bundles_dir rest
                 (w1\<lparr>stdout := stdout w1 @
                    [Line (''Failed to update and release: '' @ cp_bundle), Line msg]\<rparr>)
           | _ \<Rightarrow> (Inl e, w1)))"

definition main :: "'x sys \<Rightarrow> (unit, 'x) run" where
  "main env w =
     (let bundles_dir = abspath (cwd w) ''.bundles'' in
      bindM (if environ env ''GITHUB_WORKSPACE'' \<noteq> None then
               bindM (git env [''config'', ''--global'', ''user.name'', ''adabot'']) (\<lambda>u.
               bindM (os_environ env ''ADABOT_EMAIL'') (\<lambda>email.
               git env [''config'', ''--global'', ''user.email'', email]))
             else returnM ()) (\<lambda>u.
      main_loop env bundles_dir BUNDLES) w)"

section \<open>Measures and example worlds\<close>

definition weight :: "tally \<Rightarrow> handle \<Rightarrow> int" where
  \<comment> \<open>the weight of a contributor in a tally; 0 when absent\<close>
  "weight t h = (case map_of t h of None \<Rightarrow> 0 | Some v \<Rightarrow> v)"

fun merge_all :: "tally \<Rightarrow> tally list \<Rightarrow> py_error + tally" where
  \<comment> \<open>\<open>add_contributors\<close> applied to one master tally for each library in turn\<close>
  "merge_all master_list [] = Inr master_list"
| "merge_all master_list (additions # rest) =
     (case add_contributors master_list additions of
        Inl e \<Rightarrow> Inl e
      | Inr m \<Rightarrow> merge_all m rest)"

definition plus_map :: "(handle \<rightharpoonup> int) \<Rightarrow> (handle \<rightharpoonup> int) \<Rightarrow> (handle \<rightharpoonup> int)" where
  \<comment> \<open>the sum of two tallies read as maps\<close>
  "plus_map f g =
     (\<lambda>k. case g k of None \<Rightarrow> f k | Some n \<Rightarrow> Some ((case f k of None \<Rightarrow> 0 | Some v \<Rightarrow> v) + n))"

fun is_post :: "event \<Rightarrow> bool" where
  "is_post (GithubPost url rel) \<longleftrightarrow> True"
| "is_post ev \<longleftrightarrow> False"

definition unsupported :: "string \<Rightarrow> bool" where
  \<comment> \<open>a status line that is not the listing document's and is not \<open>M libraries...\<close>\<close>
  "unsupported status_line \<longleftrightarrow>
     (case split_ws status_line of
        [action, directory] \<Rightarrow>
          \<not> endswith directory ''library_list.md'' \<and>
          (action \<noteq> ''M'' \<or> \<not> startswith directory ''libraries'')
      | _ \<Rightarrow> False)"

definition is_ref :: "string \<Rightarrow> bool" where
  \<comment> \<open>a commit identifier as the diff summary prints it: not empty, no dot, colon or white space\<close>
  "is_ref s \<longleftrightarrow>
     s \<noteq> [] \<and> list_all (\<lambda>c. c \<noteq> CHR ''.'' \<and> c \<noteq> CHR '':'' \<and> \<not> is_space c) s"

definition one_line :: "string \<Rightarrow> bool" where
  \<comment> \<open>no line boundary of \<open>splitlines\<close> inside\<close>
  "one_line s \<longleftrightarrow> list_all (\<lambda>c. \<not> is_linebreak c) s"

definition in_section :: "submodule \<Rightarrow> bool" where
  \<comment> \<open>the path of the submodule puts it in the drivers or the helpers section\<close>
  "in_section submodule \<longleftrightarrow>
     (case map_of (snd submodule) ''path'' of
        None \<Rightarrow> False
      | Some path \<Rightarrow> contains path ''drivers'' \<or> contains path ''helpers'')"

definition renders_one_line :: "'x sys \<Rightarrow> string \<Rightarrow> 'x \<Rightarrow> submodule \<Rightarrow> bool" where
  \<comment> \<open>the line rendered for the submodule, if one is rendered, has no line boundary inside\<close>
  "renders_one_line env bundle_path x submodule \<longleftrightarrow>
     (case list_line_of env bundle_path submodule x of
        Inl e \<Rightarrow> True
      | Inr (url_name, list_line) \<Rightarrow> one_line list_line)"

definition quiet :: "unit sys" where
  \<comment> \<open>every command succeeds and prints nothing; the latest release is \<open>20240101\<close>\<close>
  "quiet =
     \<lparr>environ = Map.empty,
      isdir = (\<lambda>p x. True),
      makedirs = (\<lambda>p x. (None, x)),
      git_query = (\<lambda>args c x. ([], None)),
      git_run = (\<lambda>args c x. (None, x)),
      subprocess_run = (\<lambda>args c x. (None, x)),
      github_get = (\<lambda>url x. Inr (JObj [(''tag_name'', JStr ''20240101'')])),
      github_post = (\<lambda>url rel x. (Inr \<lparr>resp_ok = True, resp_url = url, resp_text = []\<rparr>, x)),
      get_bundle_submodules = (\<lambda>x. Inr []),
      repo_is_on_pypi = (\<lambda>n x. Inr False),
      get_docs_link = (\<lambda>p s x. Inr None),
      strftime = (\<lambda>f x. f),
      str_json = (\<lambda>v. ''None''),
      repr_bytes = (\<lambda>s. ''b'' @ [CHR 0x27] @ s @ [CHR 0x27])\<rparr>"

definition start :: "unit world" where
  "start = \<lparr>ext = (), cwd = ''/work'', files = Map.empty, redis = Map.empty, trace = [], stdout = []\<rparr>"

definition pull_fails :: "unit sys" where
  \<comment> \<open>\<open>git pull\<close> exits with status 1\<close>
  "pull_fails =
     quiet\<lparr>git_run := (\<lambda>args c x. (if args = [''pull''] then Some (ErrorReturnCode 1) else None, x))\<rparr>"

definition deleted_library :: "unit sys" where
  \<comment> \<open>the status report has the line \<open>D libraries/drivers/foo\<close>\<close>
  "deleted_library =
     quiet\<lparr>git_query := (\<lambda>args c x.
       (if args = [''status'', ''--short''] then '' D libraries/drivers/foo'' @ [CHR 0x0A] else [], None))\<rparr>"

definition cached :: "unit world" where
  \<comment> \<open>the identity cache knows two e-mail addresses\<close>
  "cached =
     start\<lparr>redis := [''github_username:a@x.org'' \<mapsto> ''alice'',
                       ''github_username:b@y.org'' \<mapsto> ''bob'']\<rparr>"

definition one_commit :: "py_error option \<Rightarrow> unit sys" where
  \<comment> \<open>\<open>git log\<close> writes one commit line and ends as given\<close>
  "one_commit r =
     quiet\<lparr>git_query := (\<lambda>args c x.
       if take 1 args = [''log''] then (''abc123,a@x.org,b@y.org'' @ [CHR 0x0A], r)
       else ([], None))\<rparr>"

definition log_fails :: "unit sys" where
  \<comment> \<open>\<open>git log\<close> writes nothing and exits with status 128\<close>
  "log_fails =
     quiet\<lparr>git_query := (\<lambda>args c x.
       if take 1 args = [''log''] then ([], Some (ErrorReturnCode 128)) else ([], None))\<rparr>"

definition one_library :: "string \<Rightarrow> unit sys" where
  \<comment> \<open>one modified library \<open>libraries/drivers/foo\<close> with the given diff summary; the commit
      \<open>def456\<close> carries the tag \<open>1.2.0\<close> and no other commit carries a tag\<close>
  "one_library diff_text =
     quiet\<lparr>git_query := (\<lambda>args c x.
       if args = [''status'', ''--short''] then ('' M libraries/drivers/foo'' @ [CHR 0x0A], None)
       else if take 2 args = [''diff'', ''--submodule=log''] then (diff_text, None)
       else if take 1 args = [''describe''] then
         (if last args = ''def456'' then (''1.2.0'' @ [CHR 0x0A], None)
          else ([], Some (ErrorReturnCode 128)))
       else if take 1 args = [''remote''] then
         (''https://github.com/adafruit/Adafruit_CircuitPython_Foo.git'' @ [CHR 0x0A], None)
       else ([], None))\<rparr>"

definition listed :: "submodule list \<Rightarrow> unit sys" where
  \<comment> \<open>the bundle has the given submodules; none is on PyPI or has documentation\<close>
  "listed submodules = quiet\<lparr>get_bundle_submodules := (\<lambda>x. Inr submodules)\<rparr>"

definition foo_at :: "string \<Rightarrow> submodule" where
  "foo_at path =
     (''libraries/foo'',
      [(''path'', path), (''url'', ''https://github.com/adafruit/Adafruit_CircuitPython_Foo.git'')])"

definition scanning :: "string \<Rightarrow> rel_state" where
  \<comment> \<open>the state of the release loop after the \<open>diff\<close> and \<open>index\<close> lines of \<open>libraries/drivers/foo\<close>\<close>
  "scanning index_line =
     \<lparr>current_submodule = Some ''libraries/drivers/foo'', current_index = Some index_line,
      added_submodules = [], updated_submodules = [], repo_links = [], contributors = []\<rparr>"

section \<open>Evaluation rules\<close>

lemmas run_defs = bindM_def returnM_def raiseM_def liftE_def print_line_def
  os_chdir_def os_path_isdir_def os_makedirs_def os_environ_def git_out_def git_text_def git_def
  subprocess_def github_get_json_def github_post_json_def

lemmas path_defs = path_join_def abspath_def

lemmas str_defs = startswith_def endswith_def suffix_to_prefix strip_def strip_chr_def is_space_def
  split_ws_def split_on_def replace_chr_def

section \<open>Tallies as finite maps\<close>

lemma plus_map_commute: "plus_map f g = plus_map g f"
  by (rule ext) (simp add: plus_map_def split: option.splits)

lemma plus_map_assoc: "plus_map (plus_map f g) h = plus_map f (plus_map g h)"
  by (rule ext) (simp add: plus_map_def split: option.splits)

lemma plus_map_swap: "plus_map (plus_map f g) h = plus_map (plus_map f h) g"
  by (rule ext) (simp add: plus_map_def split: option.splits)

lemma weight_update: "weight (AList.update k v t) h = (if h = k then v else weight t h)"
  by (simp add: weight_def update_conv')

lemma bump_map:
  "map_of t h \<noteq> None \<Longrightarrow>
   \<exists>t'. bump h n t = Inr t' \<and> map_of t' = (map_of t)(h \<mapsto> weight t h + n) \<and>
        (distinct (map fst t) \<longrightarrow> distinct (map fst t'))"
  by (auto simp: bump_def weight_def update_conv' distinct_update)

lemma add_contributors_loop_map:
  "distinct ks \<Longrightarrow> set ks \<subseteq> dom (map_of additions) \<Longrightarrow>
   \<exists>m'. add_contributors_loop ks additions m = Inr m' \<and>
        (distinct (map fst m) \<longrightarrow> distinct (map fst m')) \<and>
        map_of m' =
          (\<lambda>k. if k \<in> set ks
               then Some ((case map_of m k of None \<Rightarrow> 0 | Some v \<Rightarrow> v) + the (map_of additions k))
               else map_of m k)"
proof (induction ks arbitrary: m)
  case Nil
  then show ?case by simp
next
  case (Cons k ks)
  from Cons.prems obtain n where n: "map_of additions k = Some n" by auto
  define m1 where "m1 = (if map_of m k = None then AList.update k 0 m else m)"
  define v where "v = (case map_of m k of None \<Rightarrow> 0 | Some v \<Rightarrow> v)"
  have m1: "map_of m1 k = Some v"
    by (auto simp: m1_def v_def update_conv' split: option.splits)
  define m2 where "m2 = AList.update k (v + n) m1"
  have step: "add_contributors_loop (k # ks) additions m = add_contributors_loop ks additions m2"
    using n m1 by (simp add: Let_def m1_def[symmetric] bump_def m2_def)
  have m2: "map_of m2 = (map_of m)(k \<mapsto> v + n)"
    by (rule ext) (auto simp: m2_def m1_def update_conv')
  have d2: "distinct (map fst m) \<longrightarrow> distinct (map fst m2)"
    by (simp add: m2_def m1_def distinct_update)
  from Cons.prems have ks: "distinct ks" "set ks \<subseteq> dom (map_of additions)" "k \<notin> set ks"
    by auto
  from Cons.IH[OF ks(1,2), of m2] obtain m' where
    m': "add_contributors_loop ks additions m2 = Inr m'"
    "distinct (map fst m2) \<longrightarrow> distinct (map fst m')"
    "map_of m' =
       (\<lambda>j. if j \<in> set ks
            then Some ((case map_of m2 j of None \<Rightarrow> 0 | Some v \<Rightarrow> v) + the (map_of additions j))
            else map_of m2 j)"
    by blast
  show ?case
    using step m' m2 d2 n ks(3) by (auto simp: v_def fun_eq_iff)
qed

lemma add_contributors_map:
  assumes "distinct (map fst additions)"
  shows "\<exists>m'. add_contributors m additions = Inr m' \<and>
              (distinct (map fst m) \<longrightarrow> distinct (map fst m')) \<and>
              map_of m' = plus_map (map_of m) (map_of additions)"
proof -
  have sub: "set (map fst additions) \<subseteq> dom (map_of additions)"
    by (auto simp: dom_map_of_conv_image_fst)
  from add_contributors_loop_map[OF assms sub, of m] obtain m' where
    m': "add_contributors_loop (map fst additions) additions m = Inr m'"
    "distinct (map fst m) \<longrightarrow> distinct (map fst m')"
    "map_of m' =
       (\<lambda>k. if k \<in> set (map fst additions)
            then Some ((case map_of m k of None \<Rightarrow> 0 | Some v \<Rightarrow> v) + the (map_of additions k))
            else map_of m k)"
    by blast
  have "map_of m' = plus_map (map_of m) (map_of additions)"
  proof (rule ext)
    fix k
    show "map_of m' k = plus_map (map_of m) (map_of additions) k"
    proof (cases "map_of additions k")
      case None
      then have "k \<notin> fst ` set additions" by (simp add: map_of_eq_None_iff)
      with None m'(3) show ?thesis by (simp add: plus_map_def)
    next
      case (Some n)
      then have "k \<in> fst ` set additions" by (metis map_of_eq_None_iff option.distinct(1))
      with Some m'(3) show ?thesis by (simp add: plus_map_def)
    qed
  qed
  with m'(1,2) show ?thesis by (auto simp: add_contributors_def)
qed

lemma merge_all_map:
  "\<forall>t \<in> set ts. distinct (map fst t) \<Longrightarrow>
   \<exists>m'. merge_all m ts = Inr m' \<and> map_of m' = fold (\<lambda>t f. plus_map f (map_of t)) ts (map_of m)"
proof (induction ts arbitrary: m)
  case Nil
  then show ?case by simp
next
  case (Cons t ts)
  then obtain m1 where m1: "add_contributors m t = Inr m1" "map_of m1 = plus_map (map_of m) (map_of t)"
    using add_contributors_map[of t m] by auto
  from Cons obtain m' where
    "merge_all m1 ts = Inr m'" "map_of m' = fold (\<lambda>t f. plus_map f (map_of t)) ts (map_of m1)"
    by force
  with m1 show ?case by simp
qed

lemma merge_all_perm:
  assumes "\<forall>t \<in> set ts. distinct (map fst t)" "mset ts' = mset ts"
  shows "\<exists>m1 m2. merge_all m ts = Inr m1 \<and> merge_all m ts' = Inr m2 \<and> map_of m1 = map_of m2"
proof -
  from assms have d': "\<forall>t \<in> set ts'. distinct (map fst t)"
    by (metis mset_eq_setD)
  have "fold (\<lambda>t f. plus_map f (map_of t)) ts = fold (\<lambda>t f. plus_map f (map_of t)) ts'"
    by (rule fold_multiset_equiv) (auto simp: fun_eq_iff plus_map_swap assms(2))
  with merge_all_map[OF assms(1), of m] merge_all_map[OF d', of m] show ?thesis
    by auto
qed

lemma add_contributors_commute:
  assumes "distinct (map fst a)" "distinct (map fst b)"
  shows "\<exists>ab ba. add_contributors a b = Inr ab \<and> add_contributors b a = Inr ba \<and>
                 map_of ab = map_of ba"
  using add_contributors_map[OF assms(2), of a] add_contributors_map[OF assms(1), of b]
  by (auto simp: plus_map_commute)

lemma add_contributors_assoc:
  assumes "distinct (map fst b)" "distinct (map fst c)"
  shows "\<exists>ab bc l r. add_contributors a b = Inr ab \<and> add_contributors ab c = Inr l \<and>
                     add_contributors b c = Inr bc \<and> add_contributors a bc = Inr r \<and>
                     map_of l = map_of r"
proof -
  obtain ab where ab: "add_contributors a b = Inr ab" "map_of ab = plus_map (map_of a) (map_of b)"
    using add_contributors_map[OF assms(1), of a] by blast
  obtain l where l: "add_contributors ab c = Inr l" "map_of l = plus_map (map_of ab) (map_of c)"
    using add_contributors_map[OF assms(2), of ab] by blast
  obtain bc where bc: "add_contributors b c = Inr bc" "distinct (map fst bc)"
    "map_of bc = plus_map (map_of b) (map_of c)"
    using add_contributors_map[OF assms(2), of b] assms(1) by blast
  obtain r where r: "add_contributors a bc = Inr r" "map_of r = plus_map (map_of a) (map_of bc)"
    using add_contributors_map[OF bc(2), of a] by blast
  have "map_of l = map_of r"
    by (simp add: l(2) r(2) ab(2) bc(3) plus_map_assoc)
  with ab(1) l(1) bc(1) r(1) show ?thesis by blast
qed

text \<open>
  C6. Merging per-library tallies into a master tally with \<open>add_contributors\<close> never fails,
  and the mapping from contributor to weight that results does not depend on the order of
  the merges: the merge of two tallies is commutative and associative, and any two orders of
  the same per-library tallies give the same master mapping. (A tally is a dictionary: its
  keys are distinct.)
\<close>

theorem add_contributors_order_independent:
  assumes "distinct (map fst a)" and "distinct (map fst b)" and "distinct (map fst c)"
    and "\<forall>t \<in> set ts. distinct (map fst t)" and "mset ts' = mset ts"
  shows "(\<exists>ab ba. add_contributors a b = Inr ab \<and> add_contributors b a = Inr ba \<and>
                  map_of ab = map_of ba) \<and>
         (\<exists>ab bc l r. add_contributors a b = Inr ab \<and> add_contributors ab c = Inr l \<and>
                      add_contributors b c = Inr bc \<and> add_contributors a bc = Inr r \<and>
                      map_of l = map_of r) \<and>
         (\<exists>m1 m2. merge_all master ts = Inr m1 \<and> merge_all master ts' = Inr m2 \<and>
                  map_of m1 = map_of m2)"
  using add_contributors_commute[OF assms(1,2)] add_contributors_assoc[OF assms(2,3), of a]
    merge_all_perm[OF assms(4,5), of master]
  by blast

theorem add_contributors_order_independent_witness:
  "(\<exists>ab ba. add_contributors [(Str ''alice'', 1)] [(Str ''bob'', 2), (Str ''alice'', 3)] = Inr ab \<and>
            add_contributors [(Str ''bob'', 2), (Str ''alice'', 3)] [(Str ''alice'', 1)] = Inr ba \<and>
            map_of ab = map_of ba) \<and>
   (\<exists>m1 m2. merge_all [] [[(Str ''alice'', 1)], [(Str ''bob'', 2), (Str ''alice'', 3)]] = Inr m1 \<and>
            merge_all [] [[(Str ''bob'', 2), (Str ''alice'', 3)], [(Str ''alice'', 1)]] = Inr m2 \<and>
            map_of m1 = map_of m2)"
proof -
  have d: "distinct (map fst [(Str ''alice'', 1::int)])"
    "distinct (map fst [(Str ''bob'', 2::int), (Str ''alice'', 3)])"
    "distinct (map fst ([] :: tally))"
    by simp_all
  have all: "\<forall>t \<in> set [[(Str ''alice'', 1::int)], [(Str ''bob'', 2), (Str ''alice'', 3)]].
               distinct (map fst t)"
    by simp
  have perm: "mset [[(Str ''bob'', 2::int), (Str ''alice'', 3)], [(Str ''alice'', 1)]] =
              mset [[(Str ''alice'', 1)], [(Str ''bob'', 2), (Str ''alice'', 3)]]"
    by simp
  from add_contributors_order_independent[OF d all perm, of "[]"] show ?thesis
    by blast
qed

section \<open>The tally of one commit\<close>

lemma seen_map:
  "map_of (seen who t) =
     (\<lambda>h. if truthy who \<and> who = Some h \<and> map_of t h = None then Some 0 else map_of t h)"
  by (rule ext) (auto simp: seen_def update_conv' split: option.splits)

lemma seen_distinct: "distinct (map fst t) \<Longrightarrow> distinct (map fst (seen who t))"
  by (auto simp: seen_def distinct_update split: option.splits)

lemma credit_map:
  "\<exists>t'. credit ce author committer0 t = Inr t' \<and>
        (distinct (map fst t) \<longrightarrow> distinct (map fst t')) \<and>
        (\<forall>h. weight t' h = weight t h
               + (if truthy author \<and> author = Some h then 1 else 0)
               + (if truthy committer0 \<and> committer0 \<noteq> author \<and> ce \<noteq> ''noreply@github.com'' \<and>
                     committer0 = Some h
                  then 1 else 0)) \<and>
        (\<forall>h. map_of t' h \<noteq> None \<longleftrightarrow>
               map_of t h \<noteq> None \<or> (truthy author \<and> author = Some h) \<or>
               (truthy committer0 \<and> ce \<noteq> ''noreply@github.com'' \<and> committer0 = Some h))"
proof -
  define committer where "committer = (if ce = ''noreply@github.com'' then None else committer0)"
  define c1 where "c1 = seen author t"
  define c2 where "c2 = seen committer c1"
  have c2: "map_of c2 =
      (\<lambda>h. if truthy committer \<and> committer = Some h \<and> map_of c1 h = None then Some 0
           else map_of c1 h)"
    by (simp add: c2_def seen_map)
  have c1: "map_of c1 =
      (\<lambda>h. if truthy author \<and> author = Some h \<and> map_of t h = None then Some 0 else map_of t h)"
    by (simp add: c1_def seen_map)
  have d2: "distinct (map fst t) \<longrightarrow> distinct (map fst c2)"
    by (simp add: c1_def c2_def seen_distinct)
  have "\<exists>c3. (case author of None \<Rightarrow> Inr c2
               | Some a \<Rightarrow> if truthy author then bump a 1 c2 else Inr c2) = Inr c3 \<and>
    map_of c3 = (\<lambda>h. if truthy author \<and> author = Some h then Some (weight c2 h + 1) else map_of c2 h) \<and>
    (distinct (map fst t) \<longrightarrow> distinct (map fst c3))"
  proof (cases "truthy author")
    case False
    have "(case author of None \<Rightarrow> Inr c2
           | Some a \<Rightarrow> if truthy author then bump a 1 c2 else Inr c2) = Inr c2"
      using False by (cases author) simp_all
    with False d2 show ?thesis by simp
  next
    case True
    then obtain a where a: "author = Some a" by (cases author) auto
    have "map_of c2 a \<noteq> None" using True a by (auto simp: c2 c1)
    from bump_map[OF this, of 1] obtain t' where
      t': "bump a 1 c2 = Inr t'" "map_of t' = (map_of c2)(a \<mapsto> weight c2 a + 1)"
      "distinct (map fst c2) \<longrightarrow> distinct (map fst t')"
      by blast
    have "map_of t' =
        (\<lambda>h. if truthy author \<and> author = Some h then Some (weight c2 h + 1) else map_of c2 h)"
      using t'(2) True a by (auto simp: fun_eq_iff)
    with t' True a d2 show ?thesis by simp
  qed
  then obtain c3 where
    c3: "(case author of None \<Rightarrow> Inr c2
          | Some a \<Rightarrow> if truthy author then bump a 1 c2 else Inr c2) = Inr c3"
    "map_of c3 = (\<lambda>h. if truthy author \<and> author = Some h then Some (weight c2 h + 1) else map_of c2 h)"
    "distinct (map fst t) \<longrightarrow> distinct (map fst c3)"
    by blast
  have "\<exists>c4. (case committer of None \<Rightarrow> Inr c3
               | Some c \<Rightarrow> if truthy committer \<and> committer \<noteq> author then bump c 1 c3
                           else Inr c3) = Inr c4 \<and>
    map_of c4 = (\<lambda>h. if truthy committer \<and> committer \<noteq> author \<and> committer = Some h
                     then Some (weight c3 h + 1) else map_of c3 h) \<and>
    (distinct (map fst t) \<longrightarrow> distinct (map fst c4))"
  proof (cases "truthy committer \<and> committer \<noteq> author")
    case False
    have "(case committer of None \<Rightarrow> Inr c3
           | Some c \<Rightarrow> if truthy committer \<and> committer \<noteq> author then bump c 1 c3
                       else Inr c3) = Inr c3"
      using False by (cases committer) auto
    moreover have "map_of c3 =
        (\<lambda>h. if truthy committer \<and> committer \<noteq> author \<and> committer = Some h
             then Some (weight c3 h + 1) else map_of c3 h)"
      using False by (auto simp: fun_eq_iff)
    ultimately show ?thesis using c3(3) by metis
  next
    case True
    then obtain c where c: "committer = Some c" by (cases committer) auto
    have "map_of c3 c \<noteq> None" using True c by (auto simp: c3 c2 c1)
    from bump_map[OF this, of 1] obtain t' where
      t': "bump c 1 c3 = Inr t'" "map_of t' = (map_of c3)(c \<mapsto> weight c3 c + 1)"
      "distinct (map fst c3) \<longrightarrow> distinct (map fst t')"
      by blast
    have "map_of t' =
        (\<lambda>h. if truthy committer \<and> committer \<noteq> author \<and> committer = Some h
             then Some (weight c3 h + 1) else map_of c3 h)"
      using t'(2) True c by (auto simp: fun_eq_iff)
    with t' True c c3(3) show ?thesis by simp
  qed
  then obtain c4 where
    c4: "(case committer of None \<Rightarrow> Inr c3
          | Some c \<Rightarrow> if truthy committer \<and> committer \<noteq> author then bump c 1 c3
                      else Inr c3) = Inr c4"
    "map_of c4 = (\<lambda>h. if truthy committer \<and> committer \<noteq> author \<and> committer = Some h
                     then Some (weight c3 h + 1) else map_of c3 h)"
    "distinct (map fst t) \<longrightarrow> distinct (map fst c4)"
    by blast
  have eq: "credit ce author committer0 t = Inr c4"
    using c3(1) c4(1) unfolding credit_def Let_def c2_def c1_def committer_def by simp
  have w: "weight c4 h = weight t h
               + (if truthy author \<and> author = Some h then 1 else 0)
               + (if truthy committer \<and> committer \<noteq> author \<and> committer = Some h then 1 else 0)"
    for h
    by (auto simp: weight_def c4(2) c3(2) c2 c1 split: option.splits)
  have k: "map_of c4 h \<noteq> None \<longleftrightarrow>
               map_of t h \<noteq> None \<or> (truthy author \<and> author = Some h) \<or>
               (truthy committer \<and> committer = Some h)"
    for h
    by (auto simp: weight_def c4(2) c3(2) c2 c1 split: option.splits)
  show ?thesis
    apply (rule exI[of _ c4])
    apply (intro conjI allI)
       apply (rule eq)
      apply (rule c4(3))
     apply (subst w)
     apply (auto simp: committer_def)[1]
    apply (subst k)
    apply (auto simp: committer_def)[1]
    done
qed

lemma credit_positive:
  assumes d: "distinct (map fst t)" and p: "\<forall>h v. map_of t h = Some v \<longrightarrow> 0 < v"
    and c: "credit ce author committer0 t = Inr t'"
  shows "distinct (map fst t') \<and> (\<forall>h v. map_of t' h = Some v \<longrightarrow> 0 < v)"
proof -
  from credit_map[of ce author committer0 t] obtain t2 where
    t2: "credit ce author committer0 t = Inr t2"
    "distinct (map fst t) \<longrightarrow> distinct (map fst t2)"
    "\<forall>h. weight t2 h = weight t h
               + (if truthy author \<and> author = Some h then 1 else 0)
               + (if truthy committer0 \<and> committer0 \<noteq> author \<and> ce \<noteq> ''noreply@github.com'' \<and>
                     committer0 = Some h
                  then 1 else 0)"
    "\<forall>h. map_of t2 h \<noteq> None \<longleftrightarrow>
               map_of t h \<noteq> None \<or> (truthy author \<and> author = Some h) \<or>
               (truthy committer0 \<and> ce \<noteq> ''noreply@github.com'' \<and> committer0 = Some h)"
    by blast
  from t2(1) c have eq: "t2 = t'" by simp
  have d': "distinct (map fst t')" using t2(2) d eq by simp
  have w: "weight t' h = weight t h
               + (if truthy author \<and> author = Some h then 1 else 0)
               + (if truthy committer0 \<and> committer0 \<noteq> author \<and> ce \<noteq> ''noreply@github.com'' \<and>
                     committer0 = Some h
                  then 1 else 0)" for h
    using t2(3) eq by blast
  have k: "map_of t' h \<noteq> None \<longleftrightarrow>
               map_of t h \<noteq> None \<or> (truthy author \<and> author = Some h) \<or>
               (truthy committer0 \<and> ce \<noteq> ''noreply@github.com'' \<and> committer0 = Some h)" for h
    using t2(4) eq by blast
  have nonneg: "0 \<le> weight t h" for h
    using p by (cases "map_of t h") (auto simp: weight_def intro: less_imp_le)
  have "0 < v" if "map_of t' h = Some v" for h v
  proof -
    from that have v: "weight t' h = v" by (simp add: weight_def)
    from that have "map_of t' h \<noteq> None" by simp
    then consider "map_of t h \<noteq> None" | "truthy author \<and> author = Some h"
      | "truthy committer0 \<and> ce \<noteq> ''noreply@github.com'' \<and> committer0 = Some h"
      using k by blast
    then show ?thesis
    proof cases
      case 1
      then have "0 < weight t h" using p by (auto simp: weight_def)
      then show ?thesis using w[of h] v by (auto split: if_splits)
    next
      case 2
      then show ?thesis using w[of h] v nonneg[of h] by (auto split: if_splits)
    next
      case 3
      then show ?thesis using w[of h] v nonneg[of h] by (auto split: if_splits)
    qed
  qed
  with d' show ?thesis by blast
qed

lemma get_contributors_line_positive:
  assumes "get_contributors_line env repo log_line t w = (Inr t', w')"
    and "distinct (map fst t)" and "\<forall>h v. map_of t h = Some v \<longrightarrow> 0 < v"
  shows "distinct (map fst t') \<and> (\<forall>h v. map_of t' h = Some v \<longrightarrow> 0 < v)"
proof -
  from assms(1) obtain ce a c where "credit ce a c t = Inr t'"
    by (auto simp: get_contributors_line_def bindM_def liftE_def raiseM_def
        split: list.splits prod.splits sum.splits)
  from credit_positive[OF assms(2,3) this] show ?thesis .
qed

lemma get_contributors_loop_positive:
  "get_contributors_loop env repo ls t w = (Inr t', w') \<Longrightarrow>
   distinct (map fst t) \<Longrightarrow> \<forall>h v. map_of t h = Some v \<longrightarrow> 0 < v \<Longrightarrow>
   distinct (map fst t') \<and> (\<forall>h v. map_of t' h = Some v \<longrightarrow> 0 < v)"
proof (induction ls arbitrary: t w)
  case Nil
  then show ?case by simp
next
  case (Cons l ls)
  from Cons.prems(1) obtain t1 w1 where
    l: "get_contributors_line env repo l t w = (Inr t1, w1)"
    and rest: "get_contributors_loop env repo ls t1 w1 = (Inr t', w')"
    by (auto split: prod.splits sum.splits)
  from get_contributors_line_positive[OF l Cons.prems(2,3)]
  show ?case using Cons.IH[OF rest] by blast
qed

lemma get_contributors_positive:
  assumes "get_contributors env repo commit_range w = (Inr tally, w')"
  shows "\<forall>(h, v) \<in> set tally. 0 < v"
proof -
  have "distinct (map fst tally) \<and> (\<forall>h v. map_of tally h = Some v \<longrightarrow> 0 < v)"
  proof (cases "get_contributors_log env repo commit_range w")
    case (Pair r w1)
    show ?thesis
    proof (cases r)
      case (Inl e)
      with Pair assms show ?thesis by (simp add: get_contributors_def bindM_def)
    next
      case (Inr log_text)
      show ?thesis
      proof (cases "log_text = []")
        case True
        with Pair Inr assms show ?thesis
          by (simp add: get_contributors_def bindM_def returnM_def)
      next
        case False
        with Pair Inr assms have
          "get_contributors_loop env repo (split_on (CHR 0x0A) log_text) [] w1 = (Inr tally, w')"
          by (simp add: get_contributors_def bindM_def)
        from get_contributors_loop_positive[OF this] show ?thesis by simp
      qed
    qed
  qed
  then show ?thesis by (auto dest: map_of_is_SomeI)
qed

text \<open>
  C5. For a commit line that \<open>get_contributors\<close> processes, with \<open>author\<close> and \<open>committer\<close> as
  resolved from the cache or the hosting service: the weight of the author goes up by 1 when
  the author resolved; the weight of the committer goes up by 1 exactly when the committer
  resolved, differs from the author and the committer e-mail is not \<open>noreply@github.com\<close>; no
  other weight changes; the contributors present afterwards are those present before and the
  ones credited. Every contributor in the tally that \<open>get_contributors\<close> returns has a
  positive weight.
\<close>

theorem get_contributors_credit:
  assumes "split_on CHR '','' log_line = [sha, author_email, committer_email]"
    and "resolve_commit env repo sha author_email committer_email w = (Inr (author, committer), w1)"
  shows "(\<exists>t'. get_contributors_line env repo log_line t w = (Inr t', w1) \<and>
           (\<forall>h. weight t' h = weight t h
                  + (if truthy author \<and> author = Some h then 1 else 0)
                  + (if truthy committer \<and> committer \<noteq> author \<and>
                        committer_email \<noteq> ''noreply@github.com'' \<and> committer = Some h
                     then 1 else 0)) \<and>
           (\<forall>h. map_of t' h \<noteq> None \<longleftrightarrow>
                  map_of t h \<noteq> None \<or> (truthy author \<and> author = Some h) \<or>
                  (truthy committer \<and> committer_email \<noteq> ''noreply@github.com'' \<and>
                   committer = Some h))) \<and>
         (\<forall>commit_range w0 tally w'.
            get_contributors env repo commit_range w0 = (Inr tally, w') \<longrightarrow>
            (\<forall>(h, v) \<in> set tally. 0 < v))"
proof -
  from credit_map[of committer_email author committer t] obtain t' where
    t': "credit committer_email author committer t = Inr t'"
    "\<forall>h. weight t' h = weight t h
                  + (if truthy author \<and> author = Some h then 1 else 0)
                  + (if truthy committer \<and> committer \<noteq> author \<and>
                        committer_email \<noteq> ''noreply@github.com'' \<and> committer = Some h
                     then 1 else 0)"
    "\<forall>h. map_of t' h \<noteq> None \<longleftrightarrow>
                  map_of t h \<noteq> None \<or> (truthy author \<and> author = Some h) \<or>
                  (truthy committer \<and> committer_email \<noteq> ''noreply@github.com'' \<and>
                   committer = Some h)"
    by blast
  have line: "get_contributors_line env repo log_line t w = (Inr t', w1)"
    using assms t'(1) by (simp add: get_contributors_line_def bindM_def liftE_def)
  have positive: "\<forall>commit_range w0 tally w'.
      get_contributors env repo commit_range w0 = (Inr tally, w') \<longrightarrow>
      (\<forall>(h, v) \<in> set tally. 0 < v)"
    by (intro allI impI) (rule get_contributors_positive)
  show ?thesis
    by (rule conjI, rule exI[of _ t'], intro conjI, rule line, rule t'(2), rule t'(3),
        rule positive)
qed

lemma resolve_commit_cached:
  "resolve_commit (one_commit r) ''adafruit/foo'' ''abc123'' ''a@x.org'' ''b@y.org'' cached =
     (Inr (Some (Str ''alice''), Some (Str ''bob'')), cached)"
  by (simp add: resolve_commit_def redis_get_def cached_def start_def run_defs path_defs)

lemma get_contributors_one_commit:
  "fst (get_contributors (one_commit None) ''adafruit/foo'' ''1.0..'' cached) =
     Inr [(Str ''alice'', 1), (Str ''bob'', 1)]"
  by (simp add: get_contributors_def get_contributors_log_def get_contributors_line_def
      one_commit_def quiet_def resolve_commit_def redis_get_def cached_def start_def run_defs
      path_defs str_defs credit_def seen_def bump_def)

theorem get_contributors_credit_witness:
  "(\<exists>t'. get_contributors_line (one_commit None) ''adafruit/foo'' ''abc123,a@x.org,b@y.org'' []
            cached = (Inr t', cached) \<and>
          weight t' (Str ''alice'') = 1 \<and> weight t' (Str ''bob'') = 1 \<and>
          weight t' (Str ''carol'') = 0) \<and>
   (\<exists>tally. fst (get_contributors (one_commit None) ''adafruit/foo'' ''1.0..'' cached) = Inr tally \<and>
            tally \<noteq> [] \<and> list_all (\<lambda>p. 0 < snd p) tally)"
proof -
  have s: "split_on CHR '','' ''abc123,a@x.org,b@y.org'' = [''abc123'', ''a@x.org'', ''b@y.org'']"
    by (simp add: str_defs)
  note inst = get_contributors_credit[OF s resolve_commit_cached, of None "[]"]
  from inst[THEN conjunct1] obtain t' where
    t': "get_contributors_line (one_commit None) ''adafruit/foo'' ''abc123,a@x.org,b@y.org'' []
           cached = (Inr t', cached)"
    and wt: "\<And>h. weight t' h = weight [] h
            + (if truthy (Some (Str ''alice'')) \<and> Some (Str ''alice'') = Some h then 1 else 0)
            + (if truthy (Some (Str ''bob'')) \<and> Some (Str ''bob'') \<noteq> Some (Str ''alice'') \<and>
                  ''b@y.org'' \<noteq> ''noreply@github.com'' \<and> Some (Str ''bob'') = Some h
               then 1 else 0)"
    by blast
  have 1: "weight t' (Str ''alice'') = 1" "weight t' (Str ''bob'') = 1" "weight t' (Str ''carol'') = 0"
  proof -
    have w0: "weight [] h = 0" for h by (simp add: weight_def)
    show "weight t' (Str ''alice'') = 1" "weight t' (Str ''bob'') = 1"
      "weight t' (Str ''carol'') = 0"
      by (simp_all add: wt w0)
  qed
  note second = inst[THEN conjunct2]
  obtain w' where g: "get_contributors (one_commit None) ''adafruit/foo'' ''1.0..'' cached =
      (Inr [(Str ''alice'', 1), (Str ''bob'', 1)], w')"
    using get_contributors_one_commit by (metis prod.collapse)
  from second[rule_format, OF g]
  have "list_all (\<lambda>p. 0 < snd p) [(Str ''alice'', 1::int), (Str ''bob'', 1)]"
    by simp
  then have B: "\<exists>tally. fst (get_contributors (one_commit None) ''adafruit/foo'' ''1.0..'' cached) =
      Inr tally \<and> tally \<noteq> [] \<and> list_all (\<lambda>p. 0 < snd p) tally"
    by (simp add: get_contributors_one_commit)
  have A: "\<exists>t'. get_contributors_line (one_commit None) ''adafruit/foo'' ''abc123,a@x.org,b@y.org'' []
            cached = (Inr t', cached) \<and>
          weight t' (Str ''alice'') = 1 \<and> weight t' (Str ''bob'') = 1 \<and>
          weight t' (Str ''carol'') = 0"
    using t' 1 by blast
  from A B show ?thesis by (rule conjI)
qed

section \<open>Reference resolution\<close>

lemma path_join_absolute: "startswith p ''/'' \<Longrightarrow> path_join c p = p"
  by (simp add: path_join_def)

lemma commit_to_tag_cases:
  assumes abs: "startswith (cwd w) ''/''"
    and here: "isdir env (cwd w) (ext w)"
    and there: "isdir env (path_join (cwd w) repo_path) (ext w)"
    and q: "git_query env [''describe'', ''--tags'', ''--exact-match'', commit]
              (path_join (cwd w) repo_path) (ext w) = (out, r)"
  shows "commit_to_tag env repo_path commit w =
           ((case r of
               None \<Rightarrow> Inr (strip out)
             | Some e \<Rightarrow> if e = ErrorReturnCode 128 then Inr commit else Inl e),
            w\<lparr>trace := trace w @ [GitQuery [''describe'', ''--tags'', ''--exact-match'', commit]
                                     (path_join (cwd w) repo_path)]\<rparr>)"
  using assms
  by (cases r)
     (simp_all add: commit_to_tag_def with_Submodule_def os_chdir_def os_path_isdir_def abspath_def
        path_join_absolute describe_exact_def git_out_def Let_def)

lemma commit_to_tag_twice:
  assumes abs: "startswith (cwd w) ''/''"
    and here: "isdir env (cwd w) (ext w)"
  shows "fst (commit_to_tag env repo_path commit (snd (commit_to_tag env repo_path commit w))) =
         fst (commit_to_tag env repo_path commit w)"
proof (cases "isdir env (path_join (cwd w) repo_path) (ext w)")
  case True
  obtain out r where q: "git_query env [''describe'', ''--tags'', ''--exact-match'', commit]
              (path_join (cwd w) repo_path) (ext w) = (out, r)"
    by force
  note 1 = commit_to_tag_cases[OF abs here True q]
  let ?w1 = "w\<lparr>trace := trace w @ [GitQuery [''describe'', ''--tags'', ''--exact-match'', commit]
                                     (path_join (cwd w) repo_path)]\<rparr>"
  have 2: "commit_to_tag env repo_path commit ?w1 =
           ((case r of
               None \<Rightarrow> Inr (strip out)
             | Some e \<Rightarrow> if e = ErrorReturnCode 128 then Inr commit else Inl e),
            ?w1\<lparr>trace := trace ?w1 @ [GitQuery [''describe'', ''--tags'', ''--exact-match'', commit]
                                     (path_join (cwd ?w1) repo_path)]\<rparr>)"
    by (rule commit_to_tag_cases) (use abs here True q in simp_all)
  show ?thesis by (simp add: 1 2)
next
  case False
  then show ?thesis
    by (simp add: commit_to_tag_def with_Submodule_def os_chdir_def os_path_isdir_def Let_def)
qed

text \<open>
  C4. Run in a current directory that exists, on a library path that exists,
  \<open>commit_to_tag\<close> returns the stripped output of the exact-tag lookup when the lookup
  succeeds, returns the commit unchanged when the lookup exits with status 128 (the
  not-found status of \<open>git describe\<close>), and raises every other failure of the lookup.
  Resolving the same commit a second time gives the same result as the first time.
\<close>

theorem commit_to_tag_resolution:
  assumes "startswith (cwd w) ''/''" and "isdir env (cwd w) (ext w)"
  shows "(isdir env (path_join (cwd w) repo_path) (ext w) \<longrightarrow>
          fst (commit_to_tag env repo_path commit w) =
            (case git_query env [''describe'', ''--tags'', ''--exact-match'', commit]
                    (path_join (cwd w) repo_path) (ext w) of
               (out, None) \<Rightarrow> Inr (strip out)
             | (out, Some e) \<Rightarrow> if e = ErrorReturnCode 128 then Inr commit else Inl e)) \<and>
         fst (commit_to_tag env repo_path commit (snd (commit_to_tag env repo_path commit w))) =
         fst (commit_to_tag env repo_path commit w)"
proof (rule conjI, rule impI)
  assume there: "isdir env (path_join (cwd w) repo_path) (ext w)"
  obtain out r where q: "git_query env [''describe'', ''--tags'', ''--exact-match'', commit]
              (path_join (cwd w) repo_path) (ext w) = (out, r)"
    by force
  show "fst (commit_to_tag env repo_path commit w) =
            (case git_query env [''describe'', ''--tags'', ''--exact-match'', commit]
                    (path_join (cwd w) repo_path) (ext w) of
               (out, None) \<Rightarrow> Inr (strip out)
             | (out, Some e) \<Rightarrow> if e = ErrorReturnCode 128 then Inr commit else Inl e)"
    by (simp add: commit_to_tag_cases[OF assms there q] q split: option.splits)
next
  show "fst (commit_to_tag env repo_path commit (snd (commit_to_tag env repo_path commit w))) =
        fst (commit_to_tag env repo_path commit w)"
    by (rule commit_to_tag_twice[OF assms])
qed

theorem commit_to_tag_resolution_witness:
  "fst (commit_to_tag (one_library []) ''libraries/drivers/foo'' ''def456'' start) = Inr ''1.2.0'' \<and>
   fst (commit_to_tag (one_library []) ''libraries/drivers/foo'' ''abc123'' start) = Inr ''abc123'' \<and>
   fst (commit_to_tag (one_library []) ''libraries/drivers/foo'' ''def456''
          (snd (commit_to_tag (one_library []) ''libraries/drivers/foo'' ''def456'' start))) =
     Inr ''1.2.0''"
proof -
  have abs: "startswith (cwd start) ''/''"
    by (simp add: start_def str_defs)
  have here: "isdir (one_library []) (cwd start) (ext start)"
    by (simp add: one_library_def quiet_def)
  have there: "isdir (one_library []) (path_join (cwd start) ''libraries/drivers/foo'') (ext start)"
    by (simp add: one_library_def quiet_def)
  note tagged = commit_to_tag_resolution[OF abs here, of "''libraries/drivers/foo''" "''def456''"]
  note untagged = commit_to_tag_resolution[OF abs here, of "''libraries/drivers/foo''" "''abc123''"]
  have 1: "fst (commit_to_tag (one_library []) ''libraries/drivers/foo'' ''def456'' start) =
      Inr ''1.2.0''"
    using tagged[THEN conjunct1] there by (simp add: one_library_def str_defs)
  have 2: "fst (commit_to_tag (one_library []) ''libraries/drivers/foo'' ''abc123'' start) =
      Inr ''abc123''"
    using untagged[THEN conjunct1] there by (simp add: one_library_def str_defs)
  from tagged[THEN conjunct2] 1 2 show ?thesis by simp
qed

section \<open>Commit enumeration that fails or is empty\<close>

text \<open>
  C10, as amended. When the commit enumeration writes nothing but white space and either
  succeeds or exits with status 128, \<open>get_contributors\<close> returns the empty tally without
  raising, having made no call but the enumeration; on status 128 it prints the message
  \<open>Skipping contributors for: <repo>\<close> and nothing else.
\<close>

theorem get_contributors_empty:
  assumes "git_query env [''log'', ''--pretty=tformat:%H,%ae,%ce'', commit_range] (cwd w) (ext w) =
             (out, r)"
    and "strip out = []" and "r = None \<or> r = Some (ErrorReturnCode 128)"
  shows "get_contributors env repo commit_range w =
           (Inr [],
            w\<lparr>trace := trace w @
                  [GitQuery [''log'', ''--pretty=tformat:%H,%ae,%ce'', commit_range] (cwd w)],
              stdout := (if r = None then stdout w
                         else stdout w @ [Line (''Skipping contributors for: '' @ repo)])\<rparr>)"
  using assms
  by (auto simp: get_contributors_def get_contributors_log_def git_out_def bindM_def returnM_def
      print_line_def)

theorem get_contributors_empty_witness:
  "fst (get_contributors log_fails ''adafruit/foo'' ''1.0..'' start) = Inr [] \<and>
   stdout (snd (get_contributors log_fails ''adafruit/foo'' ''1.0..'' start)) =
     [Line ''Skipping contributors for: adafruit/foo''] \<and>
   fst (get_contributors quiet ''adafruit/foo'' ''1.0..'' start) = Inr [] \<and>
   stdout (snd (get_contributors quiet ''adafruit/foo'' ''1.0..'' start)) = []"
proof -
  have f: "git_query log_fails [''log'', ''--pretty=tformat:%H,%ae,%ce'', ''1.0..''] (cwd start)
             (ext start) = ([], Some (ErrorReturnCode 128))"
    by (simp add: log_fails_def)
  have q: "git_query quiet [''log'', ''--pretty=tformat:%H,%ae,%ce'', ''1.0..''] (cwd start)
             (ext start) = ([], None)"
    by (simp add: quiet_def)
  have s: "strip [] = []" by (simp add: strip_def)
  from get_contributors_empty[OF f s, of "''adafruit/foo''"]
       get_contributors_empty[OF q s, of "''adafruit/foo''"]
  show ?thesis by (simp add: start_def)
qed

text \<open>
  The claim as stated fails where the enumeration has written a commit line before it
  exits with status 128: the line is still in the buffer and is tallied.
\<close>

theorem get_contributors_partial_log_counterexample:
  "snd (git_query (one_commit (Some (ErrorReturnCode 128)))
          [''log'', ''--pretty=tformat:%H,%ae,%ce'', ''1.0..''] (cwd cached) (ext cached)) =
     Some (ErrorReturnCode 128) \<and>
   fst (get_contributors (one_commit (Some (ErrorReturnCode 128))) ''adafruit/foo'' ''1.0..'' cached) =
     Inr [(Str ''alice'', 1), (Str ''bob'', 1)]"
  by (simp add: get_contributors_def get_contributors_log_def get_contributors_line_def
      one_commit_def quiet_def resolve_commit_def redis_get_def cached_def start_def run_defs
      path_defs str_defs credit_def seen_def bump_def)

section \<open>Unsupported status lines\<close>

lemma update_bundle_line_unsupported:
  "unsupported status_line \<Longrightarrow>
   update_bundle_line env status_line updates w = (Inl (RuntimeError ''Unsupported updates''), w)"
  by (auto simp: unsupported_def update_bundle_line_def raiseM_def split: list.splits)

lemma update_bundle_loop_unsupported:
  "status_line \<in> set ls \<Longrightarrow> unsupported status_line \<Longrightarrow>
   \<exists>e w'. update_bundle_loop env ls updates w = (Inl e, w')"
proof (induction ls arbitrary: updates w)
  case Nil
  then show ?case by simp
next
  case (Cons l ls)
  show ?case
  proof (cases "update_bundle_line env l updates w")
    case (Pair r w1)
    show ?thesis
    proof (cases r)
      case (Inl e)
      with Pair show ?thesis by simp
    next
      case (Inr u1)
      with Pair Cons.prems have "l \<noteq> status_line"
        by (auto simp: update_bundle_line_unsupported)
      with Cons.prems have "status_line \<in> set ls" by simp
      from Cons.IH[OF this Cons.prems(2), of u1 w1] Pair Inr show ?thesis by simp
    qed
  qed
qed

lemma unsupported_nonempty: "unsupported l \<Longrightarrow> l \<noteq> []"
  by (auto simp: unsupported_def split_ws_def)

lemma update_bundle_unsupported:
  assumes "update_bundle_status env bundle_path w = (Inr (working_directory, status), w1)"
    and "status_line \<in> set (split_on (CHR 0x0A) status)" and "unsupported status_line"
  shows "\<exists>e w'. update_bundle env bundle_path w = (Inl e, w')"
proof -
  have "status \<noteq> []"
    using assms(2,3) unsupported_nonempty by (auto simp: split_on_def)
  moreover obtain e w' where
    "update_bundle_loop env (split_on (CHR 0x0A) status) [] w1 = (Inl e, w')"
    using update_bundle_loop_unsupported[OF assms(2,3)] by blast
  ultimately show ?thesis using assms(1)
    by (simp add: update_bundle_def bindM_def)
qed

text \<open>
  C2. A status line of two fields that is not the listing document's own line and whose action
  is not \<open>M\<close> or whose path does not start with \<open>libraries\<close> makes the scan raise
  \<open>RuntimeError("Unsupported updates")\<close> at once, before any command is run for that line;
  and whenever the status report of a bundle holds such a line, \<open>update_bundle\<close> raises and
  returns no change record.
\<close>

theorem update_bundle_unsupported_status:
  assumes "split_ws status_line = [action, directory]"
    and "\<not> endswith directory ''library_list.md''"
    and "action \<noteq> ''M'' \<or> \<not> startswith directory ''libraries''"
  shows "update_bundle_line env status_line updates w =
           (Inl (RuntimeError ''Unsupported updates''), w) \<and>
         (\<forall>bundle_path w0 working_directory status w1.
            update_bundle_status env bundle_path w0 = (Inr (working_directory, status), w1) \<and>
            status_line \<in> set (split_on (CHR 0x0A) status) \<longrightarrow>
            (\<exists>e w'. update_bundle env bundle_path w0 = (Inl e, w')))"
proof -
  have u: "unsupported status_line"
    using assms by (simp add: unsupported_def)
  show ?thesis
    using update_bundle_line_unsupported[OF u] update_bundle_unsupported[OF _ _ u]
    by blast
qed

lemma update_bundle_status_deleted:
  "fst (update_bundle_status deleted_library ''/work/.bundles/Adafruit_CircuitPython_Bundle'' start) =
     Inr (''/work'', ''D libraries/drivers/foo'')"
  by (simp add: update_bundle_status_def deleted_library_def quiet_def start_def run_defs path_defs
      str_defs Let_def)

theorem update_bundle_unsupported_status_witness:
  "update_bundle_line deleted_library ''D libraries/drivers/foo'' [] start =
     (Inl (RuntimeError ''Unsupported updates''), start) \<and>
   (\<exists>e. fst (update_bundle deleted_library ''/work/.bundles/Adafruit_CircuitPython_Bundle'' start) =
          Inl e)"
proof -
  have 1: "split_ws ''D libraries/drivers/foo'' = [''D'', ''libraries/drivers/foo'']"
    by (simp add: str_defs)
  have 2: "\<not> endswith ''libraries/drivers/foo'' ''library_list.md''"
    by (simp add: str_defs)
  have 3: "''D'' \<noteq> ''M'' \<or> \<not> startswith ''libraries/drivers/foo'' ''libraries''"
    by simp
  note inst = update_bundle_unsupported_status[OF 1 2 3, of deleted_library]
  obtain w1 where s: "update_bundle_status deleted_library
      ''/work/.bundles/Adafruit_CircuitPython_Bundle'' start =
      (Inr (''/work'', ''D libraries/drivers/foo''), w1)"
    using update_bundle_status_deleted by (metis prod.collapse)
  have m: "''D libraries/drivers/foo'' \<in> set (split_on (CHR 0x0A) ''D libraries/drivers/foo'')"
    by (simp add: str_defs)
  from inst[THEN conjunct2, rule_format, OF conjI, OF s m] obtain e w' where
    "update_bundle deleted_library ''/work/.bundles/Adafruit_CircuitPython_Bundle'' start = (Inl e, w')"
    by blast
  then have "\<exists>e. fst (update_bundle deleted_library
      ''/work/.bundles/Adafruit_CircuitPython_Bundle'' start) = Inl e"
    by simp
  with inst[THEN conjunct1, of "[]" start] show ?thesis by simp
qed

section \<open>Removed libraries in the release loop\<close>

text \<open>
  C9, as amended. While the index line in force gives a commit range that ends with
  \<open>0000000\<close> and does not begin with it, a line of the diff that is neither a \<open>diff\<close> line
  nor an index line is skipped: the loop state (the added and updated lists, the links, the
  tally) and the world (no tag resolution, no contributor lookup, no call at all) stay as
  they are.
\<close>

theorem new_release_line_removed:
  assumes "\<not> startswith line ''diff''" and "\<not> contains line ''index''"
    and "current_index st = Some index_line"
    and "split_ws index_line = t0 # commit_range # ts"
    and "current_submodule st = Some directory"
    and "endswith commit_range ''0000000''" and "\<not> startswith commit_range ''0000000''"
  shows "new_release_line env line st w = (Inr st, w)"
  using assms
  by (simp add: new_release_line_def new_release_candidate_def returnM_def Let_def)

theorem new_release_line_removed_witness:
  "new_release_line (one_library []) ''+Subproject commit 0000000''
     (scanning ''index abc1234..0000000'') start =
   (Inr (scanning ''index abc1234..0000000''), start)"
proof -
  have 1: "\<not> startswith ''+Subproject commit 0000000'' ''diff''"
    by (simp add: str_defs)
  have 2: "\<not> contains ''+Subproject commit 0000000'' ''index''"
    by simp
  have 3: "current_index (scanning ''index abc1234..0000000'') = Some ''index abc1234..0000000''"
    by (simp add: scanning_def)
  have 4: "split_ws ''index abc1234..0000000'' = ''index'' # ''abc1234..0000000'' # []"
    by (simp add: str_defs)
  have 5: "current_submodule (scanning ''index abc1234..0000000'') = Some ''libraries/drivers/foo''"
    by (simp add: scanning_def)
  have 6: "endswith ''abc1234..0000000'' ''0000000''"
    by (simp add: str_defs)
  have 7: "\<not> startswith ''abc1234..0000000'' ''0000000''"
    by (simp add: str_defs)
  from new_release_line_removed[OF 1 2 3 4 5 6 7] show ?thesis .
qed

text \<open>
  The claim as stated fails for a range that ends with \<open>0000000\<close> and also begins with it:
  the test for an added library comes first, the name is put on the added list, and the
  remote, the tag and the contributors are looked up.
\<close>

theorem new_release_zero_range_counterexample:
  "endswith ''0000000..0000000'' ''0000000'' \<and>
   map_sum id added_submodules
     (fst (new_release_line (one_library []) ''+Subproject commit 0000000''
             (scanning ''index 0000000..0000000'') start)) = Inr [''foo''] \<and>
   trace (snd (new_release_line (one_library []) ''+Subproject commit 0000000''
                 (scanning ''index 0000000..0000000'') start)) =
     [GitQuery [''remote'', ''get-url'', ''origin''] ''/work/libraries/drivers/foo'',
      GitQuery [''describe'', ''--tags'', ''--exact-match'', ''0000000'']
        ''/work/libraries/drivers/foo'',
      GitQuery [''log'', ''--pretty=tformat:%H,%ae,%ce'', ''0000000'']
        ''/work/libraries/drivers/foo'']"
  by (simp add: new_release_line_def new_release_candidate_def submodule_change_def
      repo_remote_url_def with_Submodule_def commit_to_tag_def describe_exact_def
      get_contributors_def get_contributors_log_def repo_name_def add_contributors_def
      scanning_def one_library_def quiet_def start_def run_defs path_defs str_defs Let_def)

section \<open>Failures at the top level\<close>

lemma main_loop_never_RuntimeError:
  "main_loop env bundles_dir bs w = (Inl e, w') \<Longrightarrow> \<forall>msg. e \<noteq> RuntimeError msg"
proof (induction bs arbitrary: w)
  case Nil
  then show ?case by simp
next
  case (Cons b bs)
  then show ?case
    by (auto split: prod.splits sum.splits py_error.splits)
qed

text \<open>
  C1, as amended. A \<open>RuntimeError\<close> raised while one bundle is fetched, updated or released
  is caught at the top level: two lines are printed, the bundle's name after
  \<open>Failed to update and release:\<close> and the message of the error, and the loop goes on with
  the next bundle; the loop is never ended by a \<open>RuntimeError\<close>. (An exception of any other
  class is not caught.)
\<close>

theorem main_loop_catches_RuntimeError:
  assumes "process_bundle env (path_join bundles_dir cp_bundle) cp_bundle w =
             (Inl (RuntimeError msg), w1)"
  shows "main_loop env bundles_dir (cp_bundle # rest) w =
           main_loop env bundles_dir rest
             (w1\<lparr>stdout := stdout w1 @
                     [Line (''Failed to update and release: '' @ cp_bundle), Line msg]\<rparr>) \<and>
         (\<forall>bs w0 e w'. main_loop env bundles_dir bs w0 = (Inl e, w') \<longrightarrow>
                        (\<forall>m. e \<noteq> RuntimeError m))"
  using assms main_loop_never_RuntimeError[of env bundles_dir]
  by (simp del: split_paired_All)

lemma process_bundle_deleted:
  "fst (process_bundle deleted_library d b w) = Inl (RuntimeError ''Unsupported updates'') \<and>
   stdout (snd (process_bundle deleted_library d b w)) = stdout w"
  by (simp add: process_bundle_def fetch_bundle_def update_bundle_def update_bundle_status_def
      update_bundle_line_def deleted_library_def quiet_def run_defs abspath_def str_defs Let_def)

theorem main_loop_catches_RuntimeError_witness:
  "fst (main deleted_library start) = Inr () \<and>
   stdout (snd (main deleted_library start)) =
     [Line ''Failed to update and release: Adafruit_CircuitPython_Bundle'',
      Line ''Unsupported updates'',
      Line ''Failed to update and release: CircuitPython_Community_Bundle'',
      Line ''Unsupported updates'']"
proof -
  let ?dir = "abspath (cwd start) ''.bundles''"
  let ?a = "''Adafruit_CircuitPython_Bundle''" and ?c = "''CircuitPython_Community_Bundle''"
  obtain w1 where 1: "process_bundle deleted_library (path_join ?dir ?a) ?a start =
      (Inl (RuntimeError ''Unsupported updates''), w1)" and o1: "stdout w1 = stdout start"
    using process_bundle_deleted[of "path_join ?dir ?a" ?a start] by (metis prod.collapse)
  let ?w1 = "w1\<lparr>stdout := stdout w1 @
      [Line (''Failed to update and release: '' @ ?a), Line ''Unsupported updates'']\<rparr>"
  obtain w2 where 2: "process_bundle deleted_library (path_join ?dir ?c) ?c ?w1 =
      (Inl (RuntimeError ''Unsupported updates''), w2)" and o2: "stdout w2 = stdout ?w1"
    using process_bundle_deleted[of "path_join ?dir ?c" ?c ?w1] by (metis prod.collapse)
  have m: "main deleted_library start = main_loop deleted_library ?dir [?a, ?c] start"
    by (simp add: main_def BUNDLES_def deleted_library_def quiet_def bindM_def returnM_def Let_def)
  have s1: "main_loop deleted_library ?dir [?a, ?c] start = main_loop deleted_library ?dir [?c] ?w1"
    by (rule main_loop_catches_RuntimeError[OF 1, THEN conjunct1])
  have s2: "main_loop deleted_library ?dir [?c] ?w1 =
      main_loop deleted_library ?dir []
        (w2\<lparr>stdout := stdout w2 @
           [Line (''Failed to update and release: '' @ ?c), Line ''Unsupported updates'']\<rparr>)"
    by (rule main_loop_catches_RuntimeError[OF 2, THEN conjunct1])
  have s3: "main_loop deleted_library ?dir []
        (w2\<lparr>stdout := stdout w2 @
           [Line (''Failed to update and release: '' @ ?c), Line ''Unsupported updates'']\<rparr>) =
      (Inr (), w2\<lparr>stdout := stdout w2 @
         [Line (''Failed to update and release: '' @ ?c), Line ''Unsupported updates'']\<rparr>)"
    by simp
  have "main deleted_library start =
      (Inr (), w2\<lparr>stdout := stdout w2 @
         [Line (''Failed to update and release: '' @ ?c), Line ''Unsupported updates'']\<rparr>)"
    by (rule trans[OF m], rule trans[OF s1], rule trans[OF s2], rule s3)
  with o1 o2 show ?thesis by (simp add: start_def)
qed

text \<open>
  The claim as stated fails for an error that is not a \<open>RuntimeError\<close>: when \<open>git pull\<close>
  exits with status 1 in the first bundle, the run ends with that error, nothing is printed
  and the second bundle is never fetched.
\<close>

theorem main_aborts_counterexample:
  "fst (main pull_fails start) = Inl (ErrorReturnCode 1) \<and>
   stdout (snd (main pull_fails start)) = [] \<and>
   trace (snd (main pull_fails start)) =
     [GitRun [''pull''] ''/work/.bundles/Adafruit_CircuitPython_Bundle'']"
  by (simp add: main_def BUNDLES_def process_bundle_def fetch_bundle_def pull_fails_def quiet_def
      start_def run_defs path_defs str_defs Let_def)

section \<open>Nothing to release\<close>

lemma bindM_Inr: "m w = (Inr a, w1) \<Longrightarrow> bindM m f w = f a w1"
  by (simp add: bindM_def)

lemma bindM_Inl: "m w = (Inl e, w1) \<Longrightarrow> bindM m f w = (Inl e, w1)"
  by (simp add: bindM_def)

lemma github_login_posts:
  "filter is_post (trace (snd (github_login info field email who w))) = filter is_post (trace w)"
  by (simp add: github_login_def bindM_def liftE_def returnM_def raiseM_def redis_set_def
      split: sum.splits json.splits)

lemma resolve_commit_posts:
  "filter is_post (trace (snd (resolve_commit env repo sha ae ce w))) = filter is_post (trace w)"
proof -
  have step: "filter is_post (trace (snd (bindM (github_login info f1 e1 a)
        (\<lambda>x. bindM (github_login info f2 e2 c) (\<lambda>y. returnM (x, y))) w0))) =
      filter is_post (trace w0)" for info f1 e1 a f2 e2 c and w0 :: "'a world"
  proof (cases "github_login info f1 e1 a w0")
    case (Pair r w1)
    have 1: "filter is_post (trace w1) = filter is_post (trace w0)"
      using github_login_posts[of info f1 e1 a w0] Pair by simp
    show ?thesis
    proof (cases r)
      case (Inl e)
      with Pair 1 show ?thesis by (simp add: bindM_def)
    next
      case (Inr x)
      obtain r2 w2 where p2: "github_login info f2 e2 c w1 = (r2, w2)" by force
      have 2: "filter is_post (trace w2) = filter is_post (trace w1)"
        using github_login_posts[of info f2 e2 c w1] p2 by simp
      from Pair Inr p2 1 2 show ?thesis
        by (cases r2) (simp_all add: bindM_def returnM_def)
    qed
  qed
  show ?thesis
  proof (cases "\<not> truthy (redis_get (''github_username:'' @ ae) w) \<or>
                \<not> truthy (redis_get (''github_username:'' @ ce) w)")
    case True
    show ?thesis
    proof (cases "github_get env (''/repos/'' @ repo @ ''/commits/'' @ sha) (ext w)")
      case (Inl e)
      with True show ?thesis
        by (simp add: resolve_commit_def Let_def bindM_def github_get_json_def)
    next
      case (Inr info)
      have "resolve_commit env repo sha ae ce w =
          bindM (github_login info ''author'' ae (redis_get (''github_username:'' @ ae) w))
            (\<lambda>x. bindM (github_login info ''committer'' ce (redis_get (''github_username:'' @ ce) w))
               (\<lambda>y. returnM (x, y)))
            (w\<lparr>trace := trace w @ [GithubGet (''/repos/'' @ repo @ ''/commits/'' @ sha)]\<rparr>)"
      proof -
        have g: "github_get_json env (''/repos/'' @ repo @ ''/commits/'' @ sha) w =
            (Inr info, w\<lparr>trace := trace w @ [GithubGet (''/repos/'' @ repo @ ''/commits/'' @ sha)]\<rparr>)"
          using Inr by (simp add: github_get_json_def)
        show ?thesis
          by (simp only: resolve_commit_def Let_def if_P[OF True]
              bindM_Inr[where m = "github_get_json env (''/repos/'' @ repo @ ''/commits/'' @ sha)"
                and w = w, OF g])
      qed
      then show ?thesis by (simp add: step)
    qed
  next
    case False
    then show ?thesis
      by (simp add: resolve_commit_def Let_def bindM_def liftE_def returnM_def split: sum.splits)
  qed
qed

lemma get_contributors_line_posts:
  "filter is_post (trace (snd (get_contributors_line env repo l t w))) = filter is_post (trace w)"
proof (cases "split_on CHR '','' l")
  case Nil
  then show ?thesis by (simp add: get_contributors_line_def raiseM_def)
next
  case (Cons sha r1)
  show ?thesis
  proof (cases "\<exists>ae ce. r1 = [ae, ce]")
    case False
    with Cons show ?thesis
      by (auto simp: get_contributors_line_def raiseM_def split: list.splits)
  next
    case True
    then obtain ae ce where r1: "r1 = [ae, ce]" by blast
    obtain r w1 where p: "resolve_commit env repo sha ae ce w = (r, w1)" by force
    have "filter is_post (trace w1) = filter is_post (trace w)"
      using resolve_commit_posts[of env repo sha ae ce w] p by simp
    with Cons r1 p show ?thesis
      by (cases r) (auto simp: get_contributors_line_def bindM_def liftE_def)
  qed
qed

lemma get_contributors_loop_posts:
  "filter is_post (trace (snd (get_contributors_loop env repo ls t w))) = filter is_post (trace w)"
proof (induction ls arbitrary: t w)
  case Nil
  then show ?case by simp
next
  case (Cons l ls)
  obtain r w1 where p: "get_contributors_line env repo l t w = (r, w1)" by force
  have 1: "filter is_post (trace w1) = filter is_post (trace w)"
    using get_contributors_line_posts[of env repo l t w] p by simp
  show ?case
    using p 1 Cons.IH by (cases r) simp_all
qed

lemma get_contributors_posts:
  "filter is_post (trace (snd (get_contributors env repo commit_range w))) =
   filter is_post (trace w)"
proof -
  obtain r w1 where p: "get_contributors_log env repo commit_range w = (r, w1)" by force
  have 1: "filter is_post (trace w1) = filter is_post (trace w)"
    using p
    by (auto simp: get_contributors_log_def git_out_def bindM_def print_line_def returnM_def
        split: prod.splits option.splits if_splits)
  show ?thesis
    using p 1 get_contributors_loop_posts[of env repo _ "[]" w1]
    by (cases r) (simp_all add: get_contributors_def bindM_def returnM_def)
qed

text \<open>
  C8. When the diff between the last published release tag and the head is empty (nothing
  but white space), \<open>new_release\<close> returns after the message
  \<open>Everything is already released.\<close>: its last call is the diff, so no payload is built
  (the head commit is not even asked for), and the trace of the run holds no call of the
  release-creation endpoint that was not there before.
\<close>

theorem new_release_noop:
  assumes "os_path_isdir env bundle_path w"
    and "github_get env (''/repos/adafruit/'' @ bundle @ ''/releases/latest'') (ext w) = Inr doc"
    and "json_getitem doc ''tag_name'' = Inr (JStr last_tag)"
    and "get_contributors env (''adafruit/'' @ bundle) (last_tag @ ''..'')
           (w\<lparr>cwd := path_join (cwd w) bundle_path,
              stdout := stdout w @ [Line bundle],
              trace := trace w @ [GithubGet (''/repos/adafruit/'' @ bundle @ ''/releases/latest'')]\<rparr>) =
         (Inr tally, w2)"
    and "git_query env [''diff'', ''--submodule=short'', last_tag @ ''..''] (cwd w2) (ext w2) =
           (out, None)"
    and "strip out = []"
  shows "new_release env bundle bundle_path w =
           (Inr (),
            w2\<lparr>trace := trace w2 @
                   [GitQuery [''diff'', ''--submodule=short'', last_tag @ ''..''] (cwd w2)],
               stdout := stdout w2 @ [Line ''Everything is already released.'']\<rparr>) \<and>
         filter is_post (trace (snd (new_release env bundle bundle_path w))) =
         filter is_post (trace w)"
proof -
  let ?w1 = "w\<lparr>cwd := path_join (cwd w) bundle_path,
              stdout := stdout w @ [Line bundle],
              trace := trace w @ [GithubGet (''/repos/adafruit/'' @ bundle @ ''/releases/latest'')]\<rparr>"
  have eq: "new_release env bundle bundle_path w =
           (Inr (),
            w2\<lparr>trace := trace w2 @
                   [GitQuery [''diff'', ''--submodule=short'', last_tag @ ''..''] (cwd w2)],
               stdout := stdout w2 @ [Line ''Everything is already released.'']\<rparr>)"
    using assms
    by (simp add: new_release_def Let_def bindM_def os_chdir_def print_line_def
        github_get_json_def liftE_def git_text_def git_out_def)
  have "filter is_post (trace w2) = filter is_post (trace ?w1)"
    using get_contributors_posts[of env "''adafruit/'' @ bundle" "last_tag @ ''..''" ?w1] assms(4)
    by simp
  then have "filter is_post (trace w2) = filter is_post (trace w)" by simp
  with eq show ?thesis by simp
qed

lemma get_contributors_quiet:
  "get_contributors quiet repo commit_range w =
     (Inr [], w\<lparr>trace := trace w @
                  [GitQuery [''log'', ''--pretty=tformat:%H,%ae,%ce'', commit_range] (cwd w)]\<rparr>)"
  by (simp add: get_contributors_def get_contributors_log_def git_out_def bindM_def returnM_def
      quiet_def strip_def)

theorem new_release_noop_witness:
  "fst (new_release quiet ''Adafruit_CircuitPython_Bundle''
          ''/work/.bundles/Adafruit_CircuitPython_Bundle'' start) = Inr () \<and>
   stdout (snd (new_release quiet ''Adafruit_CircuitPython_Bundle''
                  ''/work/.bundles/Adafruit_CircuitPython_Bundle'' start)) =
     [Line ''Adafruit_CircuitPython_Bundle'', Line ''Everything is already released.''] \<and>
   filter is_post (trace (snd (new_release quiet ''Adafruit_CircuitPython_Bundle''
                  ''/work/.bundles/Adafruit_CircuitPython_Bundle'' start))) = []"
proof -
  let ?b = "''Adafruit_CircuitPython_Bundle''"
  let ?p = "''/work/.bundles/Adafruit_CircuitPython_Bundle''"
  have 1: "os_path_isdir quiet ?p start"
    by (simp add: os_path_isdir_def quiet_def)
  have 2: "github_get quiet (''/repos/adafruit/'' @ ?b @ ''/releases/latest'') (ext start) =
      Inr (JObj [(''tag_name'', JStr ''20240101'')])"
    by (simp add: quiet_def)
  have 3: "json_getitem (JObj [(''tag_name'', JStr ''20240101'')]) ''tag_name'' =
      Inr (JStr ''20240101'')"
    by simp
  have 5: "git_query quiet [''diff'', ''--submodule=short'', ''20240101'' @ ''..''] c x = ([], None)"
    for c and x :: unit
    by (simp add: quiet_def)
  have 6: "strip [] = []" by (simp add: strip_def)
  from new_release_noop[OF 1 2 3 get_contributors_quiet 5 6]
  show ?thesis by (simp add: start_def)
qed

section \<open>Splitting and joining\<close>

lemma split_on_from_append:
  "sep \<notin> set a \<Longrightarrow>
   split_on_from sep cur (a @ sep # rest) = (cur @ a) # split_on_from sep [] rest"
  by (induction a arbitrary: cur) auto

lemma split_on_from_plain: "sep \<notin> set a \<Longrightarrow> split_on_from sep cur a = [cur @ a]"
  by (induction a arbitrary: cur) auto

lemma split_on_from_snoc: "split_on_from sep cur (s @ [sep]) = split_on_from sep cur s @ [[]]"
  by (induction s arbitrary: cur) simp_all

lemma split_on_from_nonempty: "split_on_from sep cur s \<noteq> []"
  by (induction s arbitrary: cur) simp_all

lemma join_Cons: "ys \<noteq> [] \<Longrightarrow> join sep (x # ys) = x @ sep @ join sep ys"
  by (cases ys) simp_all

lemma join_split_on_from: "join [sep] (split_on_from sep cur s) = cur @ s"
  by (induction s arbitrary: cur) (simp_all add: join_Cons split_on_from_nonempty)

lemma join_split_on: "join [sep] (split_on sep s) = s"
  by (simp add: split_on_def join_split_on_from)

lemma split_ws_from_word:
  "list_all (\<lambda>c. \<not> is_space c) a \<Longrightarrow> split_ws_from cur (a @ rest) = split_ws_from (cur @ a) rest"
  by (induction a arbitrary: cur) simp_all

lemma split_ws_from_tokens:
  "list_all (\<lambda>c. \<not> is_space c) cur \<Longrightarrow> t \<in> set (split_ws_from cur s) \<Longrightarrow>
   t \<noteq> [] \<and> list_all (\<lambda>c. \<not> is_space c) t"
proof (induction s arbitrary: cur)
  case Nil
  then show ?case by (auto split: if_splits)
next
  case (Cons c s)
  show ?case
  proof (cases "is_space c")
    case True
    have empty: "list_all (\<lambda>c. \<not> is_space c) []" by simp
    from Cons.prems(2) True have "t = cur \<and> cur \<noteq> [] \<or> t \<in> set (split_ws_from [] s)"
      by (auto split: if_splits)
    then show ?thesis
      using Cons.IH[OF empty] Cons.prems(1) by blast
  next
    case False
    with Cons.prems(1) have "list_all (\<lambda>c. \<not> is_space c) (cur @ [c])" by simp
    moreover from Cons.prems(2) False have "t \<in> set (split_ws_from (cur @ [c]) s)" by simp
    ultimately show ?thesis by (rule Cons.IH)
  qed
qed

lemma split_ws_three:
  assumes "a \<noteq> []" "list_all (\<lambda>c. \<not> is_space c) a"
    and "b \<noteq> []" "list_all (\<lambda>c. \<not> is_space c) b"
    and "c \<noteq> []" "list_all (\<lambda>c. \<not> is_space c) c"
  shows "split_ws (a @ CHR '' '' # b @ CHR '' '' # c) = [a, b, c]"
proof -
  have sp: "is_space (CHR '' '')" by (simp add: is_space_def)
  have "split_ws (a @ CHR '' '' # b @ CHR '' '' # c) = split_ws_from a (CHR '' '' # b @ CHR '' '' # c)"
    using split_ws_from_word[OF assms(2), of "[]"] by (simp add: split_ws_def)
  also have "\<dots> = a # split_ws_from [] (b @ CHR '' '' # c)"
    using assms(1) sp by simp
  also have "split_ws_from [] (b @ CHR '' '' # c) = split_ws_from b (CHR '' '' # c)"
    using split_ws_from_word[OF assms(4), of "[]"] by simp
  also have "\<dots> = b # split_ws_from [] c"
    using assms(3) sp by simp
  also have "split_ws_from [] c = [c]"
    using split_ws_from_word[OF assms(6), of "[]" "[]"] assms(5) by simp
  finally show ?thesis .
qed

lemma strip_chr_end:
  assumes "x \<noteq> []" "hd x \<noteq> c" "last x \<noteq> c"
  shows "strip_chr c (x @ [c]) = x"
proof -
  from assms(1,2) have 1: "dropWhile (\<lambda>d. d = c) (x @ [c]) = x @ [c]"
    by (cases x) simp_all
  from assms(1,3) have 2: "dropWhile (\<lambda>d. d = c) (rev x) = rev x"
    by (cases "rev x") (simp_all add: last_rev[symmetric] del: last_rev)
  show ?thesis by (simp add: strip_chr_def 1 2)
qed

lemma is_ref_facts:
  assumes "is_ref s"
  shows "s \<noteq> []" "CHR ''.'' \<notin> set s" "CHR '':'' \<notin> set s" "list_all (\<lambda>c. \<not> is_space c) s"
  using assms by (auto simp: is_ref_def list_all_iff)

lemma commit_range_ends:
  assumes "is_ref old" "is_ref new" "dots = ''..'' \<or> dots = ''...''"
  shows "hd (split_on CHR ''.'' (strip_chr CHR '':'' (old @ dots @ new @ '':''))) = old \<and>
         last (split_on CHR ''.'' (strip_chr CHR '':'' (old @ dots @ new @ '':''))) = new"
proof -
  note o = is_ref_facts[OF assms(1)] and n = is_ref_facts[OF assms(2)]
  let ?x = "old @ dots @ new"
  have "hd ?x \<noteq> CHR '':''" using o(1,3) by (cases old) auto
  moreover have "last ?x \<noteq> CHR '':''" using n(1,3) by (cases new rule: rev_cases) auto
  moreover have "?x \<noteq> []" using o(1) by simp
  ultimately have s: "strip_chr CHR '':'' (old @ dots @ new @ '':'') = ?x"
    using strip_chr_end[of ?x "CHR '':''"] by simp
  from assms(3) show ?thesis
  proof
    assume d: "dots = ''..''"
    have "split_on CHR ''.'' ?x = [old, [], new]"
      using split_on_from_append[OF o(2), of "[]" "CHR ''.'' # new"] split_on_from_plain[OF n(2), of "[]"]
      by (simp add: split_on_def d)
    with s show ?thesis by simp
  next
    assume d: "dots = ''...''"
    have "split_on CHR ''.'' ?x = [old, [], [], new]"
      using split_on_from_append[OF o(2), of "[]" "CHR ''.'' # CHR ''.'' # new"]
        split_on_from_plain[OF n(2), of "[]"]
      by (simp add: split_on_def d)
    with s show ?thesis by simp
  qed
qed

lemma diff_lines_shape:
  assumes "CHR 0x0A \<notin> set first"
  shows "split_on (CHR 0x0A) (first @ [CHR 0x0A] @ summary @ [CHR 0x0A]) =
         first # split_on (CHR 0x0A) summary @ [[]]"
proof -
  have "split_on (CHR 0x0A) (first @ [CHR 0x0A] @ summary @ [CHR 0x0A]) =
        first # split_on_from (CHR 0x0A) [] (summary @ [CHR 0x0A])"
    using split_on_from_append[OF assms, of "[]" "summary @ [CHR 0x0A]"]
    by (simp add: split_on_def)
  then show ?thesis by (simp add: split_on_from_snoc split_on_def)
qed

section \<open>The change record of a modified library\<close>

text \<open>
  C3, as amended. For an accepted status line \<open>M libraries/...\<close> whose diff summary is what
  \<open>git diff --submodule=log\<close> prints: a first line \<open>Submodule <path> <old>..<new>:\<close> (or with
  three dots), the summary lines, and a final newline; \<open>update_bundle\<close> takes the third field
  of the first line, strips the colon, splits on \<open>.\<close> and appends one change record whose old
  reference is \<open>commit_to_tag\<close> of the first token, whose new reference is \<open>commit_to_tag\<close>
  of the last token, whose url is the remote url without its last four characters, and
  whose summary is the text between the first line and the final newline.
\<close>

theorem update_bundle_line_change:
  assumes line: "split_ws status_line = [''M'', directory]"
    and lib: "startswith directory ''libraries''"
    and nolist: "\<not> endswith directory ''library_list.md''"
    and refs: "is_ref old" "is_ref new" and dots: "dots = ''..'' \<or> dots = ''...''"
    and diff: "git_text env [''diff'', ''--submodule=log'', directory] w =
                 (Inr (''Submodule '' @ directory @ '' '' @ old @ dots @ new @ '':'' @ [CHR 0x0A] @
                       summary @ [CHR 0x0A]), w1)"
    and old: "commit_to_tag env directory old w1 = (Inr old_commit, w2)"
    and new: "commit_to_tag env directory new w2 = (Inr new_commit, w3)"
    and url: "repo_remote_url env directory w3 = (Inr url, w4)"
  shows "update_bundle_line env status_line updates w =
           (Inr (updates @ [(take (length url - 4) url, old_commit, new_commit, summary)]), w4)"
proof -
  define range_text where "range_text = old @ dots @ new @ '':''"
  define first where "first = ''Submodule'' @ CHR '' '' # directory @ CHR '' '' # range_text"
  define diff_text where "diff_text = first @ [CHR 0x0A] @ summary @ [CHR 0x0A]"
  have diff': "git_text env [''diff'', ''--submodule=log'', directory] w = (Inr diff_text, w1)"
    using diff by (simp add: diff_text_def first_def range_text_def)
  note o = is_ref_facts[OF refs(1)] and n = is_ref_facts[OF refs(2)]
  have dir: "directory \<noteq> []" "list_all (\<lambda>c. \<not> is_space c) directory"
    using split_ws_from_tokens[of "[]" directory status_line] line
    by (simp_all add: split_ws_def)
  have dots_word: "list_all (\<lambda>c. \<not> is_space c) dots"
    using dots by (auto simp: is_space_def)
  have range_word: "range_text \<noteq> []" "list_all (\<lambda>c. \<not> is_space c) range_text"
    using o(1,4) n(4) dots_word by (simp_all add: range_text_def is_space_def)
  have sub_word: "''Submodule'' \<noteq> []" "list_all (\<lambda>c. \<not> is_space c) ''Submodule''"
    by (simp_all add: is_space_def)
  have tokens: "split_ws first = [''Submodule'', directory, range_text]"
    unfolding first_def by (rule split_ws_three[OF sub_word dir range_word])
  have "CHR 0x0A \<notin> set first"
    using dir(2) range_word(2) by (auto simp: first_def list_all_iff is_space_def)
  from diff_lines_shape[OF this, of summary]
  have lines: "split_on (CHR 0x0A) diff_text = first # split_on (CHR 0x0A) summary @ [[]]"
    by (simp add: diff_text_def)
  have first_line: "hd (split_on (CHR 0x0A) diff_text) = first"
    and rest: "join [CHR 0x0A] (butlast (tl (split_on (CHR 0x0A) diff_text))) = summary"
    by (simp_all add: lines join_split_on)
  have ends: "hd (split_on CHR ''.'' (strip_chr CHR '':'' range_text)) = old"
    "last (split_on CHR ''.'' (strip_chr CHR '':'' range_text)) = new"
    using commit_range_ends[OF refs dots] by (simp_all add: range_text_def)
  have change: "status_line_change env directory w =
      (Inr (take (length url - 4) url, old_commit, new_commit, summary), w4)"
    by (simp add: status_line_change_def bindM_def diff' Let_def first_line tokens ends old new url
        rest returnM_def)
  show ?thesis
    using lib nolist
    by (simp add: update_bundle_line_def line bindM_def change returnM_def)
qed

theorem update_bundle_line_change_witness:
  "fst (update_bundle_line
          (one_library (''Submodule libraries/drivers/foo abc123..def456:'' @ [CHR 0x0A] @
                        ''  > bumped version'' @ [CHR 0x0A]))
          ''M libraries/drivers/foo'' [] start) =
   Inr [(''https://github.com/adafruit/Adafruit_CircuitPython_Foo'', ''abc123'', ''1.2.0'',
         ''  > bumped version'')]"
proof -
  define env where "env = one_library (''Submodule libraries/drivers/foo abc123..def456:'' @
      [CHR 0x0A] @ ''  > bumped version'' @ [CHR 0x0A])"
  define w1 where "w1 = snd (git_text env [''diff'', ''--submodule=log'', ''libraries/drivers/foo''] start)"
  define w2 where "w2 = snd (commit_to_tag env ''libraries/drivers/foo'' ''abc123'' w1)"
  define w3 where "w3 = snd (commit_to_tag env ''libraries/drivers/foo'' ''def456'' w2)"
  define w4 where "w4 = snd (repo_remote_url env ''libraries/drivers/foo'' w3)"
  note defs = env_def one_library_def quiet_def start_def run_defs path_defs str_defs Let_def
    commit_to_tag_def with_Submodule_def describe_exact_def repo_remote_url_def
  have line: "split_ws ''M libraries/drivers/foo'' = [''M'', ''libraries/drivers/foo'']"
    by (simp add: str_defs)
  have lib: "startswith ''libraries/drivers/foo'' ''libraries''"
    by (simp add: str_defs)
  have nolist: "\<not> endswith ''libraries/drivers/foo'' ''library_list.md''"
    by (simp add: str_defs)
  have refs: "is_ref ''abc123''" "is_ref ''def456''"
    by (simp_all add: is_ref_def is_space_def)
  have dots: "''..'' = ''..'' \<or> ''..'' = ''...''"
    by simp
  have diff: "git_text env [''diff'', ''--submodule=log'', ''libraries/drivers/foo''] start =
      (Inr (''Submodule '' @ ''libraries/drivers/foo'' @ '' '' @ ''abc123'' @ ''..'' @ ''def456'' @
            '':'' @ [CHR 0x0A] @ ''  > bumped version'' @ [CHR 0x0A]), w1)"
    unfolding w1_def by (simp add: defs)
  have old: "commit_to_tag env ''libraries/drivers/foo'' ''abc123'' w1 = (Inr ''abc123'', w2)"
    unfolding w2_def w1_def by (simp add: defs)
  have new: "commit_to_tag env ''libraries/drivers/foo'' ''def456'' w2 = (Inr ''1.2.0'', w3)"
    unfolding w3_def w2_def w1_def by (simp add: defs)
  have url: "repo_remote_url env ''libraries/drivers/foo'' w3 =
      (Inr ''https://github.com/adafruit/Adafruit_CircuitPython_Foo.git'', w4)"
    unfolding w4_def w3_def w2_def w1_def by (simp add: defs)
  from update_bundle_line_change[OF line lib nolist refs dots diff old new url, of "[]"]
  show ?thesis by (simp add: env_def)
qed

text \<open>
  The claim as stated fails on its own example: a diff summary whose first line is the bare
  range \<open>abc123..def456\<close> has no third field, and the scan of the bundle ends with an
  \<open>IndexError\<close> instead of a change record.
\<close>

theorem update_bundle_bare_range_counterexample:
  "fst (update_bundle (one_library (''abc123..def456'' @ [CHR 0x0A] @ ''  > bumped version''))
          ''/work/.bundles/Adafruit_CircuitPython_Bundle'' start) = Inl IndexError"
  by (simp add: update_bundle_def update_bundle_status_def update_bundle_line_def
      status_line_change_def one_library_def quiet_def start_def run_defs path_defs str_defs Let_def)

end
